theory Spec2Isabelle
  imports Complex_Main "HOL-Library.Log_Nat"
begin

section \<open>JavaScript numbers\<close>

text \<open>
  Every number of \<^verbatim>\<open>main.js\<close> is an IEEE-754 binary64 value. The model keeps the three
  non-finite values, because the program reaches them (\<^verbatim>\<open>minFPS: Infinity\<close>,
  \<^verbatim>\<open>0 / 0\<close>), and takes a finite value as the rational it denotes. An addition, a
  multiplication or a division first has its exact result and then rounds it to the
  nearest number with 53 significant bits, a tie to the even one, as the hardware does
  (\<open>fl\<close>). Two things are left out: the exponent range (no overflow to \<^verbatim>\<open>Infinity\<close>, no
  subnormal numbers: the quantities of this program stay far inside the range) and the
  sign of zero (a zero divisor counts as \<^verbatim>\<open>+0\<close>; the program produces \<^verbatim>\<open>-0\<close> only from
  \<^verbatim>\<open>Math.round\<close> of a negative quotient, which needs the clock to run backwards past
  the test start). The clock values are the integers of \<^verbatim>\<open>Date.now()\<close>, milliseconds
  far below \<open>2\<^sup>5\<^sup>3\<close>: their differences and comparisons are exact and stay integers in
  the model.
\<close>

definition round_half_even :: "rat \<Rightarrow> int" where
  "round_half_even x =
     (let n = \<lfloor>x\<rfloor>; r = x - of_int n
      in if r < 1 / 2 then n else if 1 / 2 < r then n + 1 else if even n then n else n + 1)"

text \<open>The exponent \<open>e\<close> of a positive \<open>x\<close>: \<open>2 powi e \<le> x < 2 powi (e + 1)\<close>.\<close>

definition binary_exponent :: "rat \<Rightarrow> int" where
  "binary_exponent x =
     (let e0 = bitlen (fst (quotient_of x)) - bitlen (snd (quotient_of x))
      in if 2 powi e0 \<le> x then e0 else e0 - 1)"

definition fl :: "rat \<Rightarrow> rat" where
  "fl x = (if x = 0 then 0
           else let ulp = 2 powi (binary_exponent \<bar>x\<bar> - 52)
                in of_int (round_half_even (x / ulp)) * ulp)"

text \<open>Half the distance between 1 and the next number: the relative error of \<open>fl\<close>.\<close>

definition unit_roundoff :: rat where
  "unit_roundoff = 1 / 2 ^ 53"

datatype jsnum = Fin rat | PInf | NInf | NaN

instantiation jsnum :: "{plus, minus, uminus, times, inverse, ord}"
begin

fun plus_jsnum :: "jsnum \<Rightarrow> jsnum \<Rightarrow> jsnum" where
  "NaN + _ = NaN"
| "_ + NaN = NaN"
| "Fin a + Fin b = Fin (fl (a + b))"
| "PInf + NInf = NaN"
| "NInf + PInf = NaN"
| "PInf + _ = PInf"
| "_ + PInf = PInf"
| "NInf + _ = NInf"
| "_ + NInf = NInf"

fun uminus_jsnum :: "jsnum \<Rightarrow> jsnum" where
  "- Fin a = Fin (- a)"
| "- PInf = NInf"
| "- NInf = PInf"
| "- NaN = NaN"

definition minus_jsnum :: "jsnum \<Rightarrow> jsnum \<Rightarrow> jsnum" where
  "a - b = a + (- b)" for a b :: jsnum

fun times_jsnum :: "jsnum \<Rightarrow> jsnum \<Rightarrow> jsnum" where
  "NaN * _ = NaN"
| "_ * NaN = NaN"
| "Fin a * Fin b = Fin (fl (a * b))"
| "Fin a * PInf = (if a = 0 then NaN else if 0 < a then PInf else NInf)"
| "Fin a * NInf = (if a = 0 then NaN else if 0 < a then NInf else PInf)"
| "PInf * Fin b = (if b = 0 then NaN else if 0 < b then PInf else NInf)"
| "NInf * Fin b = (if b = 0 then NaN else if 0 < b then NInf else PInf)"
| "PInf * PInf = PInf"
| "PInf * NInf = NInf"
| "NInf * PInf = NInf"
| "NInf * NInf = PInf"

fun divide_jsnum :: "jsnum \<Rightarrow> jsnum \<Rightarrow> jsnum" where
  "NaN div _ = NaN"
| "_ div NaN = NaN"
| "Fin a div Fin b =
     (if b = 0 then (if a = 0 then NaN else if 0 < a then PInf else NInf)
      else Fin (fl (a / b)))"
| "Fin a div PInf = Fin 0"
| "Fin a div NInf = Fin 0"
| "PInf div Fin b = (if 0 \<le> b then PInf else NInf)"
| "NInf div Fin b = (if 0 \<le> b then NInf else PInf)"
| "PInf div _ = NaN"
| "NInf div _ = NaN"

definition inverse_jsnum :: "jsnum \<Rightarrow> jsnum" where
  "inverse a = Fin 1 div a" for a :: jsnum

fun less_eq_jsnum :: "jsnum \<Rightarrow> jsnum \<Rightarrow> bool" where
  "NaN \<le> _ = False"
| "_ \<le> NaN = False"
| "Fin a \<le> Fin b = (a \<le> b)"
| "NInf \<le> _ = True"
| "_ \<le> PInf = True"
| "PInf \<le> _ = False"
| "_ \<le> NInf = False"

fun less_jsnum :: "jsnum \<Rightarrow> jsnum \<Rightarrow> bool" where
  "NaN < _ = False"
| "_ < NaN = False"
| "Fin a < Fin b = (a < b)"
| "_ < NInf = False"
| "PInf < _ = False"
| "NInf < _ = True"
| "_ < PInf = True"

instance ..

end

text \<open>\<^verbatim>\<open>Math.min\<close> and \<^verbatim>\<open>Math.max\<close> return \<^verbatim>\<open>NaN\<close> as soon as one argument is \<^verbatim>\<open>NaN\<close>.\<close>

definition Math_min :: "jsnum \<Rightarrow> jsnum \<Rightarrow> jsnum" where
  "Math_min a b = (if a = NaN \<or> b = NaN then NaN else if a \<le> b then a else b)"

definition Math_max :: "jsnum \<Rightarrow> jsnum \<Rightarrow> jsnum" where
  "Math_max a b = (if a = NaN \<or> b = NaN then NaN else if a \<le> b then b else a)"

text \<open>\<^verbatim>\<open>Math.round\<close> rounds to the nearest integer, a tie towards \<^verbatim>\<open>+Infinity\<close>.\<close>

fun Math_round :: "jsnum \<Rightarrow> jsnum" where
  "Math_round (Fin a) = Fin (of_int \<lfloor>a + 1 / 2\<rfloor>)"
| "Math_round x = x"

definition is_finite :: "jsnum \<Rightarrow> bool" where
  "is_finite x = (case x of Fin _ \<Rightarrow> True | _ \<Rightarrow> False)"

section \<open>Test levels and running results\<close>

datatype level = Light | Medium | Heavy | Extreme

record expected_fps =
  desktop :: jsnum
  mobile :: jsnum

record level_config =
  objects :: nat
  name :: string
  multiplier :: jsnum
  expectedFPS :: expected_fps

fun testLevels :: "level \<Rightarrow> level_config" where
  "testLevels Light = \<lparr>objects = 50, name = ''Light Test'', multiplier = Fin (fl (7 / 10)),
     expectedFPS = \<lparr>desktop = Fin 45, mobile = Fin 30\<rparr>\<rparr>"
| "testLevels Medium = \<lparr>objects = 150, name = ''Medium Test'', multiplier = Fin 1,
     expectedFPS = \<lparr>desktop = Fin 35, mobile = Fin 22\<rparr>\<rparr>"
| "testLevels Heavy = \<lparr>objects = 300, name = ''Heavy Test'', multiplier = Fin (fl (13 / 10)),
     expectedFPS = \<lparr>desktop = Fin 25, mobile = Fin 15\<rparr>\<rparr>"
| "testLevels Extreme = \<lparr>objects = 500, name = ''Extreme Test'', multiplier = Fin (fl (16 / 10)),
     expectedFPS = \<lparr>desktop = Fin 18, mobile = Fin 10\<rparr>\<rparr>"

record test_results =
  minFPS :: jsnum
  maxFPS :: jsnum
  avgFPS :: jsnum
  maxTemp :: jsnum
  stability :: jsnum
  score :: jsnum

text \<open>The object literal assigned to \<^verbatim>\<open>testResults\<close> at load and at every test start.\<close>

definition initial_testResults :: test_results where
  "initial_testResults =
     \<lparr>minFPS = PInf, maxFPS = Fin 0, avgFPS = Fin 0, maxTemp = Fin 65,
      stability = Fin 100, score = Fin 0\<rparr>"

section \<open>JSON and the browser's storage\<close>

text \<open>
  \<^verbatim>\<open>JSON.parse\<close> and \<^verbatim>\<open>JSON.stringify\<close> belong to the runtime. A stored string is
  represented by what \<^verbatim>\<open>JSON.parse\<close> makes of it: the empty string, a string that is
  not a JSON text, or a JSON text, given by its value. A JSON number is finite;
  \<^verbatim>\<open>JSON.stringify\<close> writes \<^verbatim>\<open>null\<close> for a number that is not.
\<close>

datatype json = JNull | JBool bool | JNum rat | JStr string
  | JArr "json list" | JObj "(string \<times> json) list"

datatype jsval = VNull | VBool bool | VNum jsnum | VStr string
  | VArr "jsval list" | VObj "(string \<times> jsval) list"

datatype stored_text = EmptyText | MalformedText | JsonText json

datatype error = SyntaxError | TypeError

primrec of_json :: "json \<Rightarrow> jsval" where
  "of_json JNull = VNull"
| "of_json (JBool b) = VBool b"
| "of_json (JNum r) = VNum (Fin r)"
| "of_json (JStr s) = VStr s"
| "of_json (JArr xs) = VArr (map of_json xs)"
| "of_json (JObj kvs) = VObj (map (map_prod id of_json) kvs)"

primrec to_json :: "jsval \<Rightarrow> json" where
  "to_json VNull = JNull"
| "to_json (VBool b) = JBool b"
| "to_json (VNum n) = (case n of Fin r \<Rightarrow> JNum r | _ \<Rightarrow> JNull)"
| "to_json (VStr s) = JStr s"
| "to_json (VArr xs) = JArr (map to_json xs)"
| "to_json (VObj kvs) = JObj (map (map_prod id to_json) kvs)"

definition JSON_parse :: "stored_text \<Rightarrow> error + jsval" where
  "JSON_parse t = (case t of JsonText j \<Rightarrow> Inr (of_json j) | _ \<Rightarrow> Inl SyntaxError)"

definition JSON_stringify :: "jsval \<Rightarrow> stored_text" where
  "JSON_stringify v = JsonText (to_json v)"

section \<open>Global state\<close>

text \<open>
  The module-level variables of \<^verbatim>\<open>main.js\<close> that the test loop reads or writes, and the
  parts of the browser it acts on: \<^verbatim>\<open>localStorage\<close>, the queue of callbacks passed to
  \<^verbatim>\<open>requestAnimationFrame\<close>, and the values written to the elements \<^verbatim>\<open>fps-display\<close>
  and \<^verbatim>\<open>fallback-fps\<close> (newest first). Other writes to the page, the chart and the
  scene are not modelled, and the page is taken to have every element the code looks up.
\<close>

datatype callback = Animate | UpdateFallbackTest

record gstate =
  isTestRunning :: bool
  isMobile :: bool
  animationId :: "nat option"
  fallbackAnimationId :: "nat option"
  testStartTime :: int
  frameCount :: nat
  lastFPSUpdate :: int
  avgFPS_global :: jsnum
  totalFrames :: nat
  simulatedTemp :: jsnum
  currentLevel :: level
  testResults :: test_results
  localStorage :: "string \<rightharpoonup> stored_text"
  rafQueue :: "(nat \<times> callback) list"
  rafNext :: nat
  fps_display :: "jsnum list"
  fallback_fps :: "jsnum list"

text \<open>The state after the script has loaded, on a page whose storage is \<open>ls\<close>.\<close>

definition initial_state :: "bool \<Rightarrow> (string \<rightharpoonup> stored_text) \<Rightarrow> gstate" where
  "initial_state mob ls =
     \<lparr>isTestRunning = False, isMobile = mob, animationId = None, fallbackAnimationId = None,
      testStartTime = 0, frameCount = 0, lastFPSUpdate = 0, avgFPS_global = Fin 0,
      totalFrames = 0, simulatedTemp = Fin 65, currentLevel = Medium,
      testResults = initial_testResults, localStorage = ls, rafQueue = [], rafNext = 1,
      fps_display = [], fallback_fps = []\<rparr>"

definition testDuration :: int where
  "testDuration = 30"

text \<open>What the environment hands to one frame callback: the values of the successive
  \<^verbatim>\<open>Date.now()\<close> calls, of \<^verbatim>\<open>Math.random()\<close>, and of the two locale strings of
  \<^verbatim>\<open>saveTestResults\<close>.\<close>

record frame_env =
  clock_elapsed :: int
  clock_now :: int
  random :: rat
  date_string :: string
  time_string :: string

definition requestAnimationFrame :: "callback \<Rightarrow> gstate \<Rightarrow> nat \<times> gstate" where
  "requestAnimationFrame cb s =
     (rafNext s, s\<lparr>rafQueue := rafQueue s @ [(rafNext s, cb)], rafNext := rafNext s + 1\<rparr>)"

definition cancelAnimationFrame :: "nat \<Rightarrow> gstate \<Rightarrow> gstate" where
  "cancelAnimationFrame i s = s\<lparr>rafQueue := filter (\<lambda>e. fst e \<noteq> i) (rafQueue s)\<rparr>"

section \<open>Scoring\<close>

text \<open>
  \<^verbatim>\<open>calculateScore\<close> reads \<^verbatim>\<open>currentLevel\<close>, \<^verbatim>\<open>isMobile\<close> and \<^verbatim>\<open>testResults\<close>, writes
  \<^verbatim>\<open>testResults.score\<close> and \<^verbatim>\<open>testResults.stability\<close>, and returns the score.
\<close>

definition calculateScore :: "gstate \<Rightarrow> jsnum \<times> gstate" where
  "calculateScore s =
     (let levelConfig = testLevels (currentLevel s);
          expected = (if isMobile s then mobile (expectedFPS levelConfig)
                      else desktop (expectedFPS levelConfig));
          r = testResults s;
          fpsScore = Math_min (Fin 100) ((avgFPS r / expected) * Fin 60);
          tempPenalty = Math_max (Fin 0) ((maxTemp r - Fin 75) * Fin 2);
          fpsRange = maxFPS r - minFPS r;
          stabilityBonus = Math_max (Fin 0) (Fin 30 - fpsRange);
          rawScore = fpsScore - tempPenalty + stabilityBonus;
          r1 = r\<lparr>score := Math_max (Fin 0) (Math_min (Fin 100) (Math_round rawScore))\<rparr>;
          r2 = r1\<lparr>stability := Math_max (Fin 0) (Math_min (Fin 100)
                 (Math_round (Fin 100 - (fpsRange / avgFPS r1) * Fin 100)))\<rparr>
      in (score r2, s\<lparr>testResults := r2\<rparr>))"

text \<open>Line 1085 of \<^verbatim>\<open>stopFallbackTest\<close>, with the expected FPS of line 1084:
  \<^verbatim>\<open>const fpsScore = Math.min(100, (testResults.avgFPS / expectedFPS) * 70); // Max 70% for 2D\<close>.\<close>

definition fallback_fpsScore :: "test_results \<Rightarrow> jsnum" where
  "fallback_fpsScore r =
     (let expected = Fin 50 in Math_min (Fin 100) ((avgFPS r / expected) * Fin 70))"

text \<open>The scoring statements of \<^verbatim>\<open>stopFallbackTest\<close> (2D mode), lines 1083 to 1088.\<close>

definition fallback_score :: "test_results \<Rightarrow> test_results" where
  "fallback_score r =
     (let fpsScore = fallback_fpsScore r;
          stabilityBonus = Math_max (Fin 0) (Fin 20 - (maxFPS r - minFPS r));
          r1 = r\<lparr>score := Math_max (Fin 0) (Math_min (Fin 100)
                 (Math_round (fpsScore + stabilityBonus)))\<rparr>
      in r1\<lparr>stability := Math_max (Fin 0) (Math_min (Fin 100)
             (Math_round (Fin 100 - ((maxFPS r1 - minFPS r1) / avgFPS r1) * Fin 100)))\<rparr>)"

text \<open>Line 534 of \<^verbatim>\<open>showTestResults\<close> (and line 1110 of \<^verbatim>\<open>show2DTestResults\<close>): the text
  written to the element \<^verbatim>\<open>result-min-fps\<close>.\<close>

definition result_min_fps :: "test_results \<Rightarrow> jsnum" where
  "result_min_fps r = (if minFPS r = PInf then Fin 0 else minFPS r)"

section \<open>Persisting results\<close>

fun level_key :: "level \<Rightarrow> string" where
  "level_key Light = ''light''"
| "level_key Medium = ''medium''"
| "level_key Heavy = ''heavy''"
| "level_key Extreme = ''extreme''"

text \<open>The object literal \<^verbatim>\<open>result\<close> of \<^verbatim>\<open>saveTestResults\<close>, from the values of
  \<^verbatim>\<open>currentLevel\<close>, \<^verbatim>\<open>isMobile\<close> and \<^verbatim>\<open>testResults\<close>.\<close>

definition result_object ::
  "string \<Rightarrow> string \<Rightarrow> level \<Rightarrow> bool \<Rightarrow> test_results \<Rightarrow> jsval" where
  "result_object date_now time_now lvl mob r =
     VObj [(''level'', VStr (level_key lvl)),
           (''levelName'', VStr (name (testLevels lvl))),
           (''score'', VNum (score r)),
           (''avgFPS'', VNum (avgFPS r)),
           (''minFPS'', VNum (minFPS r)),
           (''maxFPS'', VNum (maxFPS r)),
           (''maxTemp'', VNum (Math_round (maxTemp r))),
           (''stability'', VNum (stability r)),
           (''objects'', VNum (Fin (of_nat (objects (testLevels lvl))))),
           (''deviceType'', VStr (if mob then ''Mobile'' else ''Desktop'')),
           (''date'', VStr date_now),
           (''time'', VStr time_now)]"

text \<open>
  \<^verbatim>\<open>JSON.parse(localStorage.getItem('gpuTestResults') || '[]')\<close>, the first statement on
  the storage of both \<^verbatim>\<open>saveTestResults\<close> (line 432) and \<^verbatim>\<open>loadPreviousResults\<close>
  (line 571). A missing item (\<^verbatim>\<open>null\<close>) and the empty string are falsy. Neither
  function catches the exception of \<^verbatim>\<open>JSON.parse\<close>. What \<^verbatim>\<open>loadPreviousResults\<close> then
  writes into the page is not modelled.
\<close>

definition load_savedResults :: "gstate \<Rightarrow> error + jsval" where
  "load_savedResults s =
     JSON_parse (case localStorage s ''gpuTestResults'' of
                   None \<Rightarrow> JsonText (JArr [])
                 | Some EmptyText \<Rightarrow> JsonText (JArr [])
                 | Some t \<Rightarrow> t)"

text \<open>
  \<^verbatim>\<open>saveTestResults\<close>. A parsed value that is not an array has no callable
  \<^verbatim>\<open>unshift\<close>: the call raises a TypeError.
\<close>

definition saveTestResults :: "string \<Rightarrow> string \<Rightarrow> gstate \<Rightarrow> error + gstate" where
  "saveTestResults date_now time_now s =
     (let result = result_object date_now time_now (currentLevel s) (isMobile s) (testResults s)
      in case load_savedResults s of
           Inl e \<Rightarrow> Inl e
         | Inr (VArr savedResults) \<Rightarrow>
             Inr (s\<lparr>localStorage := (localStorage s)(''gpuTestResults'' \<mapsto>
                    JSON_stringify (VArr (take 10 (result # savedResults))))\<rparr>)
         | Inr _ \<Rightarrow> Inl TypeError)"

section \<open>The 3D test loop\<close>

text \<open>Lines 345 to 387 of \<^verbatim>\<open>animate\<close>: frame counting, the once-per-second FPS sample,
  the running statistics and the simulated temperature.\<close>

definition update_fps :: "frame_env \<Rightarrow> gstate \<Rightarrow> gstate" where
  "update_fps env s0 =
     (let s = s0\<lparr>frameCount := frameCount s0 + 1, totalFrames := totalFrames s0 + 1\<rparr>;
          now = clock_now env
      in if now - lastFPSUpdate s \<ge> 1000 then
           (let fps = Math_round (Fin (of_nat (frameCount s))
                                  / (Fin (of_int (now - lastFPSUpdate s)) / Fin 1000));
                elapsedSeconds = Fin (of_int (now - testStartTime s)) / Fin 1000;
                avg = Math_round (Fin (of_nat (totalFrames s)) / elapsedSeconds);
                r = testResults s;
                r1 = r\<lparr>minFPS := Math_min (minFPS r) fps,
                       maxFPS := Math_max (maxFPS r) fps,
                       avgFPS := avg\<rparr>;
                levelMultiplier = multiplier (testLevels (currentLevel s));
                temp = Math_min (Fin 90)
                         (Fin 65 + (elapsedSeconds * Fin (1 / 2) * levelMultiplier)
                          + (Fin (random env) * Fin 3 - Fin (3 / 2)));
                r2 = r1\<lparr>maxTemp := Math_max (maxTemp r1) temp\<rparr>
            in s\<lparr>fps_display := fps # fps_display s, avgFPS_global := avg,
                 testResults := r2, simulatedTemp := temp,
                 frameCount := 0, lastFPSUpdate := now\<rparr>)
         else s)"

text \<open>\<^verbatim>\<open>stopGPUTest\<close>, up to the results page. An exception of \<^verbatim>\<open>saveTestResults\<close>
  leaves the function.\<close>

definition stopGPUTest :: "string \<Rightarrow> string \<Rightarrow> gstate \<Rightarrow> error + gstate" where
  "stopGPUTest date_now time_now s =
     (if \<not> isTestRunning s then Inr s
      else
        let s1 = s\<lparr>isTestRunning := False\<rparr>;
            s2 = (case animationId s1 of
                    Some i \<Rightarrow> if i \<noteq> 0 then (cancelAnimationFrame i s1)\<lparr>animationId := None\<rparr> else s1
                  | None \<Rightarrow> s1);
            (finalScore, s3) = calculateScore s2
        in saveTestResults date_now time_now s3)"

text \<open>Line 316: \<^verbatim>\<open>animationId = requestAnimationFrame(animate)\<close>.\<close>

definition schedule_animate :: "gstate \<Rightarrow> gstate" where
  "schedule_animate s =
     (let (i, s1) = requestAnimationFrame Animate s in s1\<lparr>animationId := Some i\<rparr>)"

definition animate :: "frame_env \<Rightarrow> gstate \<Rightarrow> error + gstate" where
  "animate env s =
     (if \<not> isTestRunning s then Inr s
      else
        let s1 = schedule_animate s;
            elapsed = clock_elapsed env - testStartTime s1;
            remaining = max 0 (testDuration - elapsed div 1000)
        in if remaining = 0 then stopGPUTest (date_string env) (time_string env) s1
           else Inr (update_fps env s1))"

text \<open>\<^verbatim>\<open>startGPUTest\<close>; \<open>t_start\<close> and \<open>t_last\<close> are its two \<^verbatim>\<open>Date.now()\<close> values, \<open>env\<close>
  is for the call of \<^verbatim>\<open>animate\<close> that ends it.\<close>

definition startGPUTest :: "level \<Rightarrow> int \<Rightarrow> int \<Rightarrow> frame_env \<Rightarrow> gstate \<Rightarrow> error + gstate" where
  "startGPUTest lvl t_start t_last env s =
     (if isTestRunning s then Inr s
      else animate env
             (s\<lparr>currentLevel := lvl, isTestRunning := True, testStartTime := t_start,
                frameCount := 0, totalFrames := 0, lastFPSUpdate := t_last,
                simulatedTemp := Fin 65, avgFPS_global := Fin 0,
                testResults := initial_testResults\<rparr>))"

section \<open>The 2D fallback test loop\<close>

text \<open>\<^verbatim>\<open>fallbackAnimationId = requestAnimationFrame(updateFallbackTest)\<close>, the last
  statement of \<^verbatim>\<open>start2DAnimation\<close> (line 1031) and line 1066 of \<^verbatim>\<open>updateFallbackTest\<close>.\<close>

definition schedule_updateFallbackTest :: "gstate \<Rightarrow> gstate" where
  "schedule_updateFallbackTest s =
     (let (i, s1) = requestAnimationFrame UpdateFallbackTest s in s1\<lparr>fallbackAnimationId := Some i\<rparr>)"

text \<open>\<^verbatim>\<open>startFallbackTest\<close>, with \<^verbatim>\<open>start2DAnimation\<close>, which it calls last. There is no
  test of \<^verbatim>\<open>isTestRunning\<close>.\<close>

definition startFallbackTest :: "level \<Rightarrow> int \<Rightarrow> int \<Rightarrow> gstate \<Rightarrow> gstate" where
  "startFallbackTest lvl t_start t_last s =
     (let s1 = s\<lparr>currentLevel := lvl, isTestRunning := True, testStartTime := t_start,
                 frameCount := 0, totalFrames := 0, lastFPSUpdate := t_last,
                 testResults := initial_testResults\<rparr>
      in schedule_updateFallbackTest s1)"

text \<open>Lines 1048 to 1062 of \<^verbatim>\<open>updateFallbackTest\<close>.\<close>

definition update_fallback_fps :: "frame_env \<Rightarrow> gstate \<Rightarrow> gstate" where
  "update_fallback_fps env s0 =
     (let now = clock_now env;
          elapsed = now - testStartTime s0;
          s = s0\<lparr>frameCount := frameCount s0 + 1, totalFrames := totalFrames s0 + 1\<rparr>
      in if now - lastFPSUpdate s \<ge> 1000 then
           (let fps = Math_round (Fin (of_nat (frameCount s))
                                  / (Fin (of_int (now - lastFPSUpdate s)) / Fin 1000));
                r = testResults s;
                r1 = r\<lparr>minFPS := Math_min (minFPS r) fps,
                       maxFPS := Math_max (maxFPS r) fps,
                       avgFPS := Math_round (Fin (of_nat (totalFrames s))
                                             / (Fin (of_int elapsed) / Fin 1000))\<rparr>
            in s\<lparr>fallback_fps := fps # fallback_fps s, testResults := r1,
                 frameCount := 0, lastFPSUpdate := now\<rparr>)
         else s)"

definition stopFallbackTest :: "string \<Rightarrow> string \<Rightarrow> gstate \<Rightarrow> error + gstate" where
  "stopFallbackTest date_now time_now s =
     (let s1 = s\<lparr>isTestRunning := False\<rparr>;
          s2 = (case fallbackAnimationId s1 of
                  Some i \<Rightarrow> if i \<noteq> 0 then (cancelAnimationFrame i s1)\<lparr>fallbackAnimationId := None\<rparr>
                            else s1
                | None \<Rightarrow> s1);
          s3 = s2\<lparr>testResults := fallback_score (testResults s2)\<rparr>
      in saveTestResults date_now time_now s3)"

definition updateFallbackTest :: "frame_env \<Rightarrow> gstate \<Rightarrow> error + gstate" where
  "updateFallbackTest env s =
     (if \<not> isTestRunning s then Inr s
      else
        let elapsed = clock_now env - testStartTime s;
            remaining = max 0 (testDuration - elapsed div 1000);
            s1 = update_fallback_fps env s
        in if remaining > 0 then Inr (schedule_updateFallbackTest s1)
           else stopFallbackTest (date_string env) (time_string env) s1)"

section \<open>Sequences of events\<close>

text \<open>
  The frame pump: the browser takes the oldest callback off the queue of
  \<^verbatim>\<open>requestAnimationFrame\<close> and calls it; \<open>env\<close> is what that call reads from the
  environment. With an empty queue nothing runs.
\<close>

definition run_callback :: "frame_env \<Rightarrow> gstate \<Rightarrow> error + gstate" where
  "run_callback env s =
     (case rafQueue s of
        [] \<Rightarrow> Inr s
      | (i, cb) # queue \<Rightarrow>
          (case cb of
             Animate \<Rightarrow> animate env (s\<lparr>rafQueue := queue\<rparr>)
           | UpdateFallbackTest \<Rightarrow> updateFallbackTest env (s\<lparr>rafQueue := queue\<rparr>)))"

text \<open>A sequence of callback invocations; an uncaught exception ends it.\<close>

fun run_callbacks :: "frame_env list \<Rightarrow> gstate \<Rightarrow> error + gstate" where
  "run_callbacks [] s = Inr s"
| "run_callbacks (env # envs) s =
     (case run_callback env s of Inl e \<Rightarrow> Inl e | Inr s' \<Rightarrow> run_callbacks envs s')"

text \<open>The number of FPS samples written to the page so far, in either mode.\<close>

definition samples_emitted :: "gstate \<Rightarrow> nat" where
  "samples_emitted s = length (fps_display s) + length (fallback_fps s)"

text \<open>A sequence of appends to the history: each element carries the locale strings,
  the level and the results at the time of one call of \<^verbatim>\<open>saveTestResults\<close>.\<close>

fun saveTestResults_all ::
  "(string \<times> string \<times> level \<times> test_results) list \<Rightarrow> gstate \<Rightarrow> error + gstate" where
  "saveTestResults_all [] s = Inr s"
| "saveTestResults_all ((d, t, lvl, r) # rest) s =
     (case saveTestResults d t (s\<lparr>currentLevel := lvl, testResults := r\<rparr>) of
        Inl e \<Rightarrow> Inl e
      | Inr s' \<Rightarrow> saveTestResults_all rest s')"

text \<open>The history as the code loads it, when the stored value is one: the entries of
  the array.\<close>

definition persisted_history :: "gstate \<Rightarrow> jsval list option" where
  "persisted_history s =
     (case load_savedResults s of Inr (VArr xs) \<Rightarrow> Some xs | _ \<Rightarrow> None)"

text \<open>An appended result as it comes back from the storage.\<close>

definition loaded_entry :: "bool \<Rightarrow> string \<times> string \<times> level \<times> test_results \<Rightarrow> jsval" where
  "loaded_entry mob a =
     (case a of (d, t, lvl, r) \<Rightarrow> of_json (to_json (result_object d t lvl mob r)))"

text \<open>Reading a property of an entry.\<close>

definition js_get :: "jsval \<Rightarrow> string \<Rightarrow> jsval option" where
  "js_get v k = (case v of VObj kvs \<Rightarrow> map_of kvs k | _ \<Rightarrow> None)"

section \<open>Consistency of the running statistics\<close>

text \<open>Two roundings, of a divisor and of the quotient, move a positive quotient by at
  most these factors.\<close>

definition rate_up :: rat where
  "rate_up = (1 + unit_roundoff) / (1 - unit_roundoff)"

definition rate_down :: rat where
  "rate_down = (1 - unit_roundoff) / (1 + unit_roundoff)"

text \<open>
  With \<open>F\<close> the frames counted in finished sampling windows and \<open>D\<close> the milliseconds
  from \<^verbatim>\<open>testStartTime\<close> to the last sample, and \<open>k\<close> the number of samples emitted:
  no sample means \<open>D = 0\<close> and untouched extremes; otherwise \<open>D\<close> is at least 1000, the
  extremes and avgFPS are whole numbers, minFPS is at most maxFPS, and minFPS less one
  half, avgFPS less one half, avgFPS plus one half and maxFPS plus one half bracket
  \<open>1000 F / D\<close> up to the rounding of the quotients.
\<close>

definition stats_consistent :: "nat \<Rightarrow> gstate \<Rightarrow> bool" where
  "stats_consistent k s =
     (let F = (of_nat (totalFrames s) - of_nat (frameCount s) :: rat);
          D = (of_int (lastFPSUpdate s - testStartTime s) :: rat);
          r = testResults s
      in frameCount s \<le> totalFrames s \<and> ((k = 0) = (D = 0)) \<and> (D = 0 \<or> 1000 \<le> D)
         \<and> (case maxFPS r of
               Fin M \<Rightarrow> of_int \<lfloor>M\<rfloor> = M
                 \<and> (if D = 0 then M = 0 \<and> F = 0
                    else rate_down * (1000 * F) < (M + 1 / 2) * D)
             | _ \<Rightarrow> False)
         \<and> (case minFPS r of
               Fin m \<Rightarrow> of_int \<lfloor>m\<rfloor> = m \<and> 0 < D \<and> (m - 1 / 2) * D \<le> rate_up * (1000 * F)
             | PInf \<Rightarrow> D = 0
             | _ \<Rightarrow> False)
         \<and> (D = 0 \<or> minFPS r \<le> maxFPS r)
         \<and> (D = 0
             \<or> (case avgFPS r of
                   Fin A \<Rightarrow> of_int \<lfloor>A\<rfloor> = A
                     \<and> rate_down * (1000 * F) < (A + 1 / 2) * D
                     \<and> (A - 1 / 2) * D \<le> rate_up * (1000 * F)
                 | _ \<Rightarrow> False)))"

text \<open>Two states with the same counters, window, logs and FPS statistics.\<close>

definition same_stats :: "gstate \<Rightarrow> gstate \<Rightarrow> bool" where
  "same_stats s s' =
     (frameCount s' = frameCount s \<and> totalFrames s' = totalFrames s
      \<and> lastFPSUpdate s' = lastFPSUpdate s \<and> testStartTime s' = testStartTime s
      \<and> fps_display s' = fps_display s \<and> fallback_fps s' = fallback_fps s
      \<and> minFPS (testResults s') = minFPS (testResults s)
      \<and> maxFPS (testResults s') = maxFPS (testResults s)
      \<and> avgFPS (testResults s') = avgFPS (testResults s))"

text \<open>The window start minus 1000 ms for every sample emitted.\<close>

definition rate_potential :: "gstate \<Rightarrow> int" where
  "rate_potential s = lastFPSUpdate s - 1000 * int (samples_emitted s)"

section \<open>Concrete inputs\<close>

text \<open>An environment with given clock values, a desktop page with empty storage, and
  that page with a 3D test running since time 0 and its callback queued.\<close>

definition demo_env :: "int \<Rightarrow> int \<Rightarrow> frame_env" where
  "demo_env t_elapsed t_now =
     \<lparr>clock_elapsed = t_elapsed, clock_now = t_now, random = 1 / 2,
      date_string = ''3/11/2026'', time_string = ''10:00:00''\<rparr>"

definition demo_page :: gstate where
  "demo_page = initial_state False Map.empty"

definition demo_running :: gstate where
  "demo_running = demo_page\<lparr>isTestRunning := True, rafQueue := [(1, Animate)], rafNext := 2\<rparr>"

text \<open>The 3D test started on that page at time 0 with its first frame at time 0, and
  the same test after the frame at time 1000.\<close>

definition demo_started :: gstate where
  "demo_started =
     update_fps (demo_env 0 0)
       (schedule_animate
          (demo_page\<lparr>currentLevel := Medium, isTestRunning := True, testStartTime := 0,
             frameCount := 0, totalFrames := 0, lastFPSUpdate := 0,
             simulatedTemp := Fin 65, avgFPS_global := Fin 0,
             testResults := initial_testResults\<rparr>))"

definition demo_sampled :: gstate where
  "demo_sampled =
     update_fps (demo_env 1000 1000) (schedule_animate (demo_started\<lparr>rafQueue := []\<rparr>))"

section \<open>The scoring formulas as the specification words them\<close>

text \<open>
  The specification writes \<open>clamp(x, 0, 100)\<close>, \<open>min\<close>, \<open>max\<close> and \<open>round\<close> over the
  numbers of the implementation; \<open>clamp\<close> is read as the usual comparison chain.
\<close>

definition clamp :: "jsnum \<Rightarrow> jsnum \<Rightarrow> jsnum \<Rightarrow> jsnum" where
  "clamp x lo hi = (if x < lo then lo else if hi < x then hi else x)"

text \<open>The level configuration table of the specification, expected FPS columns.\<close>

fun spec_expectedFPS :: "level \<Rightarrow> bool \<Rightarrow> jsnum" where
  "spec_expectedFPS Light is_mobile = (if is_mobile then Fin 30 else Fin 45)"
| "spec_expectedFPS Medium is_mobile = (if is_mobile then Fin 22 else Fin 35)"
| "spec_expectedFPS Heavy is_mobile = (if is_mobile then Fin 15 else Fin 25)"
| "spec_expectedFPS Extreme is_mobile = (if is_mobile then Fin 10 else Fin 18)"

text \<open>The sample of the specification's Sampler:
  \<open>fps = round(frameCount / ((now - windowStart) / 1000))\<close>.\<close>

definition spec_fps :: "nat \<Rightarrow> int \<Rightarrow> int \<Rightarrow> jsnum" where
  "spec_fps frame_count now windowStart =
     Math_round (Fin (of_nat frame_count) / (Fin (of_int (now - windowStart)) / Fin 1000))"

definition spec_score :: "jsnum \<Rightarrow> jsnum \<Rightarrow> jsnum \<Rightarrow> jsnum \<Rightarrow> jsnum \<Rightarrow> jsnum" where
  "spec_score expected avg mn mx temp =
     clamp (Math_round (Math_min (Fin 100) ((avg / expected) * Fin 60)
                        - Math_max (Fin 0) ((temp - Fin 75) * Fin 2)
                        + Math_max (Fin 0) (Fin 30 - (mx - mn))))
       (Fin 0) (Fin 100)"

definition spec_stability :: "jsnum \<Rightarrow> jsnum \<Rightarrow> jsnum \<Rightarrow> jsnum" where
  "spec_stability avg mn mx =
     clamp (Math_round (Fin 100 - ((mx - mn) / avg) * Fin 100)) (Fin 0) (Fin 100)"

definition spec_score_reduced :: "jsnum \<Rightarrow> jsnum \<Rightarrow> jsnum \<Rightarrow> jsnum" where
  "spec_score_reduced avg mn mx =
     clamp (Math_round (Math_min (Fin 100) ((avg / Fin 50) * Fin 70)
                        + Math_max (Fin 0) (Fin 20 - (mx - mn))))
       (Fin 0) (Fin 100)"

section \<open>Arithmetic helpers\<close>

lemma floor_rat_divide_numeral [simp]:
  "\<lfloor>(numeral a :: rat) / numeral b\<rfloor> = numeral a div numeral b"
  using floor_divide_of_int_eq [of "numeral a" "numeral b", where ?'a = rat] by simp

lemma floor_rat_divide_neg_numeral [simp]:
  "\<lfloor>- ((numeral a :: rat) / numeral b)\<rfloor> = - numeral a div numeral b"
  using floor_divide_of_int_eq [of "- numeral a" "numeral b", where ?'a = rat] by simp

lemma floor_rat_one_divide_numeral [simp]:
  "\<lfloor>(1 :: rat) / numeral b\<rfloor> = 1 div numeral b"
  using floor_divide_of_int_eq [of 1 "numeral b", where ?'a = rat] by simp

lemma floor_rat_neg_one_divide_numeral [simp]:
  "\<lfloor>- ((1 :: rat) / numeral b)\<rfloor> = - 1 div numeral b"
  using floor_divide_of_int_eq [of "- 1" "numeral b", where ?'a = rat] by simp

lemma clamp_as_max_min:
  "Math_max (Fin 0) (Math_min (Fin 100) x) = clamp x (Fin 0) (Fin 100)"
  by (cases x) (auto simp: Math_max_def Math_min_def clamp_def)

lemma expected_matches_table:
  "(if mob then mobile (expectedFPS (testLevels lvl)) else desktop (expectedFPS (testLevels lvl)))
     = spec_expectedFPS lvl mob"
  by (cases lvl) simp_all

lemma clamped_round_finite_in_range:
  "\<exists>v. Math_max (Fin 0) (Math_min (Fin 100) (Math_round (Fin a))) = Fin v \<and> 0 \<le> v \<and> v \<le> 100"
  by (simp add: Math_max_def Math_min_def)

lemma Math_min_Fin [simp]: "Math_min (Fin a) (Fin b) = Fin (min a b)"
  by (simp add: Math_min_def min_def)

lemma Math_max_Fin [simp]: "Math_max (Fin a) (Fin b) = Fin (max a b)"
  by (simp add: Math_max_def max_def)

lemma expected_finite:
  "\<exists>e. spec_expectedFPS lvl mob = Fin e \<and> 0 < e"
  by (cases lvl) simp_all

section \<open>Rounding to 53 bits: error bound\<close>

lemma round_half_even_near: "\<bar>of_int (round_half_even x) - x\<bar> \<le> 1 / 2"
proof -
  define r where "r = x - of_int \<lfloor>x\<rfloor>"
  have r: "0 \<le> r" "r < 1"
    using floor_correct [of x] by (simp_all add: r_def)
  have x: "x = of_int \<lfloor>x\<rfloor> + r" by (simp add: r_def)
  consider "r < 1 / 2" | "1 / 2 < r" | "r = 1 / 2" by linarith
  then show ?thesis
  proof cases
    case 1
    then have "round_half_even x = \<lfloor>x\<rfloor>"
      by (simp add: round_half_even_def Let_def r_def)
    then show ?thesis using r 1 by (simp add: r_def)
  next
    case 2
    then have "round_half_even x = \<lfloor>x\<rfloor> + 1"
      by (simp add: round_half_even_def Let_def r_def)
    then have "of_int (round_half_even x) - x = 1 - r" by (simp add: r_def)
    then show ?thesis using r 2 by simp
  next
    case 3
    then have "round_half_even x = \<lfloor>x\<rfloor> \<or> round_half_even x = \<lfloor>x\<rfloor> + 1"
      by (simp add: round_half_even_def Let_def r_def)
    then have "of_int (round_half_even x) - x = - r \<or> of_int (round_half_even x) - x = 1 - r"
      by (auto simp: r_def)
    then show ?thesis using 3 by auto
  qed
qed

lemma two_powi_bitlen:
  assumes "0 < (n::int)"
  shows "(2::rat) powi (bitlen n - 1) \<le> of_int n" and "of_int n < (2::rat) powi bitlen n"
proof -
  from bitlen_bounds [OF assms] have b: "2 ^ nat (bitlen n - 1) \<le> n" "n < 2 ^ nat (bitlen n)"
    by simp_all
  have ge: "1 \<le> bitlen n" using assms bitlen_eq_zero_iff [of n] bitlen_nonneg [of n] by linarith
  have "(2::rat) powi (bitlen n - 1) = of_int (2 ^ nat (bitlen n - 1))"
    using ge by (simp add: power_int_def)
  also have "\<dots> \<le> of_int n" using b(1) by (simp only: of_int_le_iff)
  finally show "(2::rat) powi (bitlen n - 1) \<le> of_int n" .
  have "(of_int n :: rat) < of_int (2 ^ nat (bitlen n))" using b(2) by (simp only: of_int_less_iff)
  also have "\<dots> = (2::rat) powi bitlen n"
    using ge by (simp add: power_int_def)
  finally show "of_int n < (2::rat) powi bitlen n" .
qed

lemma binary_exponent_le:
  assumes "0 < x"
  shows "2 powi binary_exponent x \<le> x"
proof -
  obtain p q where pq: "quotient_of x = (p, q)" by (cases "quotient_of x")
  then have x: "x = of_int p / of_int q" and q: "0 < q"
    by (simp_all add: quotient_of_div quotient_of_denom_pos)
  have p: "0 < p" using assms x q by (simp add: zero_less_divide_iff)
  let ?e0 = "bitlen p - bitlen q"
  show ?thesis
  proof (cases "2 powi ?e0 \<le> x")
    case True
    then show ?thesis by (simp add: binary_exponent_def pq)
  next
    case False
    have "(2::rat) powi (?e0 - 1) = 2 powi (bitlen p - 1) / 2 powi bitlen q"
      by (simp add: power_int_diff)
    also have "\<dots> \<le> of_int p / 2 powi bitlen q"
      using two_powi_bitlen(1) [OF p] by (simp add: divide_right_mono)
    also have "\<dots> \<le> of_int p / of_int q"
      using two_powi_bitlen(2) [OF q] p q by (simp add: frac_le)
    finally have "(2::rat) powi (?e0 - 1) \<le> x" by (simp add: x)
    then show ?thesis using False by (simp add: binary_exponent_def pq)
  qed
qed

lemma fl_zero [simp]: "fl 0 = 0"
  by (simp add: fl_def)

lemma fl_error:
  assumes "0 < x"
  shows "x * (1 - unit_roundoff) \<le> fl x" and "fl x \<le> x * (1 + unit_roundoff)"
proof -
  define ulp :: rat where "ulp = 2 powi (binary_exponent x - 52)"
  have ulp_pos: "0 < ulp" by (simp add: ulp_def zero_less_power_int)
  have "ulp = 2 powi binary_exponent x / 2 ^ 52"
    by (simp add: ulp_def power_int_diff)
  then have ulp_le: "ulp \<le> x / 2 ^ 52"
    using binary_exponent_le [OF assms] by (simp add: divide_right_mono)
  have f: "fl x = of_int (round_half_even (x / ulp)) * ulp"
    using assms by (simp add: fl_def ulp_def Let_def)
  have "\<bar>of_int (round_half_even (x / ulp)) - x / ulp\<bar> * ulp \<le> 1 / 2 * ulp"
    using round_half_even_near [of "x / ulp"] ulp_pos by (intro mult_right_mono) simp_all
  then have "\<bar>(of_int (round_half_even (x / ulp)) - x / ulp) * ulp\<bar> \<le> ulp / 2"
    using ulp_pos by (simp add: abs_mult)
  moreover have "(of_int (round_half_even (x / ulp)) - x / ulp) * ulp = fl x - x"
    using ulp_pos by (simp add: f left_diff_distrib)
  ultimately have d: "\<bar>fl x - x\<bar> \<le> ulp / 2" by simp
  have "ulp / 2 \<le> x * unit_roundoff"
    using ulp_le by (simp add: unit_roundoff_def)
  with d have "\<bar>fl x - x\<bar> \<le> x * unit_roundoff" by linarith
  then show "x * (1 - unit_roundoff) \<le> fl x" and "fl x \<le> x * (1 + unit_roundoff)"
    by (simp_all add: algebra_simps abs_le_iff)
qed

lemma fl_pos: "0 < x \<Longrightarrow> 0 < fl x"
proof -
  assume x: "0 < x"
  have "0 < x * (1 - unit_roundoff)" using x by (simp add: unit_roundoff_def)
  then show ?thesis using fl_error(1) [OF x] by linarith
qed

text \<open>A positive quotient by a rounded positive divisor, rounded: the form of every
  FPS value of the program, \<open>n / (d / 1000)\<close>.\<close>

lemma rounded_quotient_bounds:
  assumes f: "0 < f" and d: "0 < d"
  shows "rate_down * (1000 * f / d) \<le> fl (f / fl (d / 1000))"
    and "fl (f / fl (d / 1000)) \<le> rate_up * (1000 * f / d)"
    and "0 < fl (d / 1000)"
proof -
  define u where "u = unit_roundoff"
  have u: "0 < u" "u < 1" by (simp_all add: u_def unit_roundoff_def)
  define x where "x = d / 1000"
  define y where "y = fl x"
  have x: "0 < x" using d by (simp add: x_def)
  have y: "x * (1 - u) \<le> y" "y \<le> x * (1 + u)" "0 < y"
    using fl_error [OF x] fl_pos [OF x] by (simp_all add: y_def u_def)
  show "0 < fl (d / 1000)" using y(3) by (simp add: y_def x_def)
  have q: "0 < f / y" using f y(3) by simp
  have lo: "x * (1 - u) > 0" using x u by simp
  have q_hi: "f / y \<le> f / (x * (1 - u))"
    using y(1) lo f by (intro divide_left_mono) (simp_all add: y(3))
  have q_lo: "f / (x * (1 + u)) \<le> f / y"
    using y(2) y(3) f x u by (intro divide_left_mono) simp_all
  have r: "1000 * f / d = f / x" using d by (simp add: x_def)
  have "fl (f / y) \<le> (f / y) * (1 + u)" using fl_error(2) [OF q] by (simp add: u_def)
  also have "\<dots> \<le> (f / (x * (1 - u))) * (1 + u)"
    using q_hi u by (intro mult_right_mono) simp_all
  also have "\<dots> = rate_up * (f / x)"
    using u x by (simp add: rate_up_def u_def [symmetric] field_simps)
  finally show "fl (f / fl (d / 1000)) \<le> rate_up * (1000 * f / d)"
    by (simp add: r y_def x_def)
  have "rate_down * (f / x) = (f / (x * (1 + u))) * (1 - u)"
    using u x by (simp add: rate_down_def u_def [symmetric] field_simps)
  also have "\<dots> \<le> (f / y) * (1 - u)"
    using q_lo u by (intro mult_right_mono) simp_all
  also have "\<dots> \<le> fl (f / y)" using fl_error(1) [OF q] by (simp add: u_def)
  finally show "rate_down * (1000 * f / d) \<le> fl (f / fl (d / 1000))"
    by (simp add: r y_def x_def)
qed

text \<open>Whole numbers below \<open>2\<^sup>5\<^sup>3\<close> are exact.\<close>

lemma round_half_even_of_int [simp]: "round_half_even (of_int n) = n"
  by (simp add: round_half_even_def)

lemma fl_of_int:
  assumes "\<bar>n\<bar> < 2 ^ 53"
  shows "fl (of_int n) = of_int n"
proof (cases "n = 0")
  case True
  then show ?thesis by simp
next
  case False
  define a :: rat where "a = \<bar>of_int n\<bar>"
  have a: "0 < a" "a < 2 ^ 53"
    using False assms by (simp_all add: a_def flip: of_int_abs)
  define e where "e = binary_exponent a"
  have "(2::rat) powi e \<le> a" using binary_exponent_le [OF a(1)] by (simp add: e_def)
  then have "(2::rat) powi e < 2 powi 53" using a(2) by simp
  then have "e < 53" by (rule power_int_le_imp_less_exp [rotated]) simp_all
  then have e: "e \<le> 52" by simp
  define k where "k = nat (52 - e)"
  have ulp: "(2::rat) powi (e - 52) = 1 / 2 ^ k"
    using e by (simp add: k_def power_int_def inverse_eq_divide power_one_over)
  have "of_int n / (2::rat) powi (e - 52) = of_int (n * 2 ^ k)"
    by (simp add: ulp)
  then have "of_int (round_half_even (of_int n / (2::rat) powi (e - 52))) * (2::rat) powi (e - 52)
      = of_int (n * 2 ^ k) * (1 / 2 ^ k)"
    by (simp only: round_half_even_of_int ulp)
  also have "\<dots> = of_int n" by simp
  finally show ?thesis using False by (simp add: fl_def Let_def e_def a_def)
qed

lemma fl_numeral [simp]: "numeral k < (2::int) ^ 53 \<Longrightarrow> fl (numeral k) = numeral k"
  using fl_of_int [of "numeral k"] by simp

lemma fl_neg_numeral [simp]: "numeral k < (2::int) ^ 53 \<Longrightarrow> fl (- numeral k) = - numeral k"
  using fl_of_int [of "- numeral k"] by simp

lemma fl_one [simp]: "fl 1 = 1"
  using fl_of_int [of 1] by simp

lemma minus_Fin [simp]: "Fin a - Fin b = Fin (fl (a - b))"
  by (simp add: minus_jsnum_def)

section \<open>Scoring: theorems\<close>

lemma calculateScore_eq_spec:
  "calculateScore s =
     (spec_score (spec_expectedFPS (currentLevel s) (isMobile s))
        (avgFPS (testResults s)) (minFPS (testResults s)) (maxFPS (testResults s))
        (maxTemp (testResults s)),
      s\<lparr>testResults := (testResults s)
        \<lparr>score := spec_score (spec_expectedFPS (currentLevel s) (isMobile s))
           (avgFPS (testResults s)) (minFPS (testResults s)) (maxFPS (testResults s))
           (maxTemp (testResults s)),
         stability := spec_stability (avgFPS (testResults s)) (minFPS (testResults s))
           (maxFPS (testResults s))\<rparr>\<rparr>)"
  unfolding calculateScore_def Let_def spec_score_def spec_stability_def
  by (simp add: clamp_as_max_min expected_matches_table)

lemma fallback_score_eq_spec:
  "fallback_score r =
     r\<lparr>score := spec_score_reduced (avgFPS r) (minFPS r) (maxFPS r),
       stability := spec_stability (avgFPS r) (minFPS r) (maxFPS r)\<rparr>"
  unfolding fallback_score_def fallback_fpsScore_def Let_def spec_score_reduced_def
    spec_stability_def
  by (simp add: clamp_as_max_min)

text \<open>The examples of the specification, in the arithmetic of the program.\<close>

lemma spec_examples:
  "spec_score (Fin 35) (Fin 40) (Fin 38) (Fin 42) (Fin 70) = Fin 95"
  "spec_stability (Fin 40) (Fin 38) (Fin 42) = Fin 90"
  "spec_score_reduced (Fin 25) (Fin 20) (Fin 30) = Fin 45"
  "spec_stability (Fin 0) (Fin 0) (Fin 0) = NaN"
  by code_simp+

text \<open>
  C1. For every state, \<^verbatim>\<open>calculateScore\<close> returns the score of the specification's
  full-fidelity formula, with the expected FPS of the level table for the current level
  and device class, and stores that score and the specification's stability in
  \<^verbatim>\<open>testResults\<close>. For Medium on desktop (expected 35) with avgFPS 40, minFPS 38,
  maxFPS 42 and maxTemp 70 the score is 95 and the stability is 90.
\<close>

theorem calculateScore_formula:
  "calculateScore s =
     (spec_score (spec_expectedFPS (currentLevel s) (isMobile s))
        (avgFPS (testResults s)) (minFPS (testResults s)) (maxFPS (testResults s))
        (maxTemp (testResults s)),
      s\<lparr>testResults := (testResults s)
        \<lparr>score := spec_score (spec_expectedFPS (currentLevel s) (isMobile s))
           (avgFPS (testResults s)) (minFPS (testResults s)) (maxFPS (testResults s))
           (maxTemp (testResults s)),
         stability := spec_stability (avgFPS (testResults s)) (minFPS (testResults s))
           (maxFPS (testResults s))\<rparr>\<rparr>)
   \<and> spec_expectedFPS Medium False = Fin 35
   \<and> fst (calculateScore (s\<lparr>currentLevel := Medium, isMobile := False,
        testResults := \<lparr>minFPS = Fin 38, maxFPS = Fin 42, avgFPS = Fin 40, maxTemp = Fin 70,
                        stability = Fin 100, score = Fin 0\<rparr>\<rparr>)) = Fin 95
   \<and> stability (testResults (snd (calculateScore (s\<lparr>currentLevel := Medium, isMobile := False,
        testResults := \<lparr>minFPS = Fin 38, maxFPS = Fin 42, avgFPS = Fin 40, maxTemp = Fin 70,
                        stability = Fin 100, score = Fin 0\<rparr>\<rparr>)))) = Fin 90"
proof (intro conjI)
  show "calculateScore s =
     (spec_score (spec_expectedFPS (currentLevel s) (isMobile s))
        (avgFPS (testResults s)) (minFPS (testResults s)) (maxFPS (testResults s))
        (maxTemp (testResults s)),
      s\<lparr>testResults := (testResults s)
        \<lparr>score := spec_score (spec_expectedFPS (currentLevel s) (isMobile s))
           (avgFPS (testResults s)) (minFPS (testResults s)) (maxFPS (testResults s))
           (maxTemp (testResults s)),
         stability := spec_stability (avgFPS (testResults s)) (minFPS (testResults s))
           (maxFPS (testResults s))\<rparr>\<rparr>)"
    by (rule calculateScore_eq_spec)
  show "spec_expectedFPS Medium False = Fin 35" by simp
  show "fst (calculateScore (s\<lparr>currentLevel := Medium, isMobile := False,
        testResults := \<lparr>minFPS = Fin 38, maxFPS = Fin 42, avgFPS = Fin 40, maxTemp = Fin 70,
                        stability = Fin 100, score = Fin 0\<rparr>\<rparr>)) = Fin 95"
    by (simp add: calculateScore_eq_spec spec_examples)
  show "stability (testResults (snd (calculateScore (s\<lparr>currentLevel := Medium, isMobile := False,
        testResults := \<lparr>minFPS = Fin 38, maxFPS = Fin 42, avgFPS = Fin 40, maxTemp = Fin 70,
                        stability = Fin 100, score = Fin 0\<rparr>\<rparr>)))) = Fin 90"
    by (simp add: calculateScore_eq_spec spec_examples)
qed

text \<open>
  In 2D mode the scoring statements of \<^verbatim>\<open>stopFallbackTest\<close> store the score of the
  specification's reduced-fidelity formula and the same stability as \<^verbatim>\<open>calculateScore\<close>;
  avgFPS 25, minFPS 20 and maxFPS 30 score 45.
\<close>

lemma fallback_score_formula_and_example:
  "fallback_score r =
     r\<lparr>score := spec_score_reduced (avgFPS r) (minFPS r) (maxFPS r),
       stability := spec_stability (avgFPS r) (minFPS r) (maxFPS r)\<rparr>
   \<and> stability (fallback_score (testResults s)) = stability (testResults (snd (calculateScore s)))
   \<and> score (fallback_score
        \<lparr>minFPS = Fin 20, maxFPS = Fin 30, avgFPS = Fin 25, maxTemp = Fin 65,
         stability = Fin 100, score = Fin 0\<rparr>) = Fin 45"
  by (simp add: fallback_score_eq_spec calculateScore_eq_spec spec_examples)

text \<open>
  C4. The reduced-fidelity formula is the one the claim writes, with no thermal term and an
  expected FPS of 50 (lemma \<open>fallback_score_formula_and_example\<close>), but its FPS
  contribution is not capped at 70: line 1085 is \<^verbatim>\<open>Math.min(100, ...)\<close> under the comment
  \<^verbatim>\<open>Max 70% for 2D\<close>. An average of 60 FPS contributes 84 and, with a steady frame rate,
  scores 100; the contribution reaches its cap of 100 from 72 FPS on.
\<close>

theorem fallback_fps_contribution_exceeds_70:
  "fallback_fpsScore \<lparr>minFPS = Fin 60, maxFPS = Fin 60, avgFPS = Fin 60, maxTemp = Fin 65,
                      stability = Fin 100, score = Fin 0\<rparr> = Fin 84
   \<and> \<not> (Fin 84 \<le> Fin 70)
   \<and> score (fallback_score \<lparr>minFPS = Fin 60, maxFPS = Fin 60, avgFPS = Fin 60,
                             maxTemp = Fin 65, stability = Fin 100, score = Fin 0\<rparr>) = Fin 100
   \<and> fallback_fpsScore \<lparr>minFPS = Fin 72, maxFPS = Fin 72, avgFPS = Fin 72, maxTemp = Fin 65,
                        stability = Fin 100, score = Fin 0\<rparr> = Fin 100"
  by code_simp

text \<open>
  C2. The claim that score and stability lie in [0,100] for all finite inputs, avgFPS = 0
  included, fails for the stability: with avgFPS = 0 and minFPS = maxFPS = 0 the
  quotient is \<^verbatim>\<open>0 / 0\<close>, and both scoring paths store \<^verbatim>\<open>NaN\<close>, which
  \<^verbatim>\<open>Math.max(0, Math.min(100, ...))\<close> lets through.
\<close>

theorem stability_not_a_number:
  "stability (testResults (snd (calculateScore (s\<lparr>testResults :=
       \<lparr>minFPS = Fin 0, maxFPS = Fin 0, avgFPS = Fin 0, maxTemp = Fin 65,
        stability = Fin 100, score = Fin 0\<rparr>\<rparr>)))) = NaN
   \<and> stability (fallback_score
       \<lparr>minFPS = Fin 0, maxFPS = Fin 0, avgFPS = Fin 0, maxTemp = Fin 65,
        stability = Fin 100, score = Fin 0\<rparr>) = NaN
   \<and> \<not> (Fin 0 \<le> NaN \<and> NaN \<le> Fin 100)"
  by (simp add: calculateScore_eq_spec fallback_score_eq_spec spec_examples)

text \<open>
  C5. With the results still at their initial values (no sample emitted: minFPS is
  \<^verbatim>\<open>Infinity\<close>, avgFPS and maxFPS are 0), \<^verbatim>\<open>calculateScore\<close> returns 100 and stores
  stability 100, not 0: the FPS range is \<^verbatim>\<open>-Infinity\<close> and the stability bonus
  \<^verbatim>\<open>Infinity\<close>. The results page shows minFPS as 0; the stored minFPS stays \<^verbatim>\<open>Infinity\<close>.
\<close>

theorem zero_samples_scored_100:
  "fst (calculateScore (s\<lparr>testResults := initial_testResults\<rparr>)) = Fin 100
   \<and> stability (testResults (snd (calculateScore (s\<lparr>testResults := initial_testResults\<rparr>)))) = Fin 100
   \<and> result_min_fps (testResults (snd (calculateScore (s\<lparr>testResults := initial_testResults\<rparr>)))) = Fin 0
   \<and> minFPS (testResults (snd (calculateScore (s\<lparr>testResults := initial_testResults\<rparr>)))) = PInf"
  using expected_finite [of "currentLevel s" "isMobile s"]
  by (auto simp add: calculateScore_def Let_def initial_testResults_def result_min_fps_def
      expected_matches_table minus_jsnum_def Math_min_def Math_max_def)

section \<open>Persisting results: theorems\<close>

lemma to_json_of_json [simp]: "to_json (of_json j) = j"
proof (induction j)
  case (JArr xs)
  then show ?case by (simp add: map_idI)
next
  case (JObj kvs)
  have "map (\<lambda>kv. map_prod id to_json (map_prod id of_json kv)) kvs = kvs"
  proof (rule map_idI)
    fix kv assume m: "kv \<in> set kvs"
    obtain k v where kv: "kv = (k, v)" by (cases kv)
    show "map_prod id to_json (map_prod id of_json kv) = kv"
      using JObj.IH [of kv v] m kv by simp
  qed
  then show ?case by (simp add: comp_def)
qed simp_all

lemma load_savedResults_cases:
  "load_savedResults s =
     (case localStorage s ''gpuTestResults'' of
        None \<Rightarrow> Inr (VArr [])
      | Some EmptyText \<Rightarrow> Inr (VArr [])
      | Some MalformedText \<Rightarrow> Inl SyntaxError
      | Some (JsonText j) \<Rightarrow> Inr (of_json j))"
  by (simp add: load_savedResults_def JSON_parse_def split: option.splits stored_text.splits)

lemma of_json_eq_VArr: "of_json j = VArr xs \<Longrightarrow> \<exists>js. j = JArr js \<and> xs = map of_json js"
  by (cases j) auto

lemma persisted_history_roundtrip:
  assumes "persisted_history s = Some xs"
  shows "map (\<lambda>x. of_json (to_json x)) xs = xs"
proof -
  from assms have "xs = [] \<or> (\<exists>j. of_json j = VArr xs)"
    by (auto simp: persisted_history_def load_savedResults_cases
        split: option.splits stored_text.splits sum.splits jsval.splits)
  then have "\<exists>js. xs = map of_json js" using of_json_eq_VArr by auto
  then show ?thesis by auto
qed

lemma persisted_history_after_store:
  "persisted_history (s\<lparr>localStorage := (localStorage s)(''gpuTestResults'' \<mapsto> JSON_stringify (VArr ys))\<rparr>)
     = Some (map (\<lambda>x. of_json (to_json x)) ys)"
  by (simp add: persisted_history_def load_savedResults_cases JSON_stringify_def comp_def)

lemma saveTestResults_appends:
  assumes "persisted_history s = Some xs"
  shows "\<exists>s'. saveTestResults d t s = Inr s'
     \<and> persisted_history s' = Some (take 10 (loaded_entry (isMobile s) (d, t, currentLevel s, testResults s) # xs))
     \<and> isMobile s' = isMobile s"
proof -
  from assms have l: "load_savedResults s = Inr (VArr xs)"
    by (auto simp: persisted_history_def split: sum.splits jsval.splits)
  let ?r = "result_object d t (currentLevel s) (isMobile s) (testResults s)"
  have "saveTestResults d t s = Inr (s\<lparr>localStorage := (localStorage s)(''gpuTestResults'' \<mapsto>
                    JSON_stringify (VArr (take 10 (?r # xs))))\<rparr>)"
    by (simp add: saveTestResults_def l)
  moreover have "map (\<lambda>x. of_json (to_json x)) (take 10 (?r # xs))
      = take 10 (loaded_entry (isMobile s) (d, t, currentLevel s, testResults s) # xs)"
    using persisted_history_roundtrip [OF assms]
    by (simp add: take_map [symmetric] loaded_entry_def)
  ultimately show ?thesis
    by (simp add: persisted_history_after_store)
qed

lemma take_append_take: "take n (as @ take n bs) = take n (as @ bs)"
  by (simp add: min_def)

lemma saveTestResults_all_history:
  assumes "persisted_history s = Some xs"
  shows "\<exists>s'. saveTestResults_all ins s = Inr s'
     \<and> persisted_history s' =
         Some (if ins = [] then xs else take 10 (rev (map (loaded_entry (isMobile s)) ins) @ xs))"
  using assms
proof (induction ins arbitrary: s xs)
  case Nil
  then show ?case by simp
next
  case (Cons a ins)
  obtain d t lvl r where a: "a = (d, t, lvl, r)" by (cases a) auto
  let ?s0 = "s\<lparr>currentLevel := lvl, testResults := r\<rparr>"
  have h0: "persisted_history ?s0 = Some xs"
    using Cons.prems by (simp add: persisted_history_def load_savedResults_def)
  from saveTestResults_appends [OF h0, of d t]
  obtain s1 where s1: "saveTestResults d t ?s0 = Inr s1"
    "persisted_history s1 = Some (take 10 (loaded_entry (isMobile s) a # xs))"
    "isMobile s1 = isMobile s"
    by (auto simp: a)
  from Cons.IH [OF s1(2)] obtain s' where s': "saveTestResults_all ins s1 = Inr s'"
    "persisted_history s' = Some (if ins = [] then take 10 (loaded_entry (isMobile s) a # xs)
       else take 10 (rev (map (loaded_entry (isMobile s)) ins) @ take 10 (loaded_entry (isMobile s) a # xs)))"
    by (auto simp: s1(3))
  have "saveTestResults_all (a # ins) s = Inr s'"
    by (simp add: a s1(1) s'(1))
  moreover have "persisted_history s' = Some (take 10 (rev (map (loaded_entry (isMobile s)) (a # ins)) @ xs))"
    using s'(2) by (simp add: take_append_take del: take_Cons_numeral)
  ultimately show ?case by simp
qed

text \<open>
  C7. Starting from a stored history (no value, the empty string or a JSON array), every
  nonempty sequence of calls of \<^verbatim>\<open>saveTestResults\<close> succeeds and leaves a stored
  history of at most 10 entries: the appended results, newest first, followed by the
  earlier entries in their order, cut after the tenth; its head is the result appended
  last.
\<close>

theorem history_capped_newest_first:
  assumes "persisted_history s = Some xs" and "ins \<noteq> []"
  shows "\<exists>s' ys. saveTestResults_all ins s = Inr s'
     \<and> persisted_history s' = Some ys
     \<and> ys = take 10 (rev (map (loaded_entry (isMobile s)) ins) @ xs)
     \<and> length ys \<le> 10
     \<and> hd ys = loaded_entry (isMobile s) (last ins)"
proof -
  from saveTestResults_all_history [OF assms(1), of ins] assms(2)
  obtain s' where s': "saveTestResults_all ins s = Inr s'"
    "persisted_history s' = Some (take 10 (rev (map (loaded_entry (isMobile s)) ins) @ xs))"
    by auto
  have "hd (take 10 (rev (map (loaded_entry (isMobile s)) ins) @ xs)) = loaded_entry (isMobile s) (last ins)"
    using assms(2) by (cases ins rule: rev_cases) simp_all
  with s' show ?thesis by simp
qed


theorem history_capped_newest_first_witness:
  "persisted_history (initial_state False Map.empty) = Some []
   \<and> [(''3/11/2026'', ''10:00:00'', Light, initial_testResults\<lparr>minFPS := Fin 58, maxFPS := Fin 61, avgFPS := Fin 60\<rparr>),
       (''3/11/2026'', ''10:05:00'', Heavy, initial_testResults)] \<noteq> []
   \<and> (\<exists>s' ys. saveTestResults_all
          [(''3/11/2026'', ''10:00:00'', Light, initial_testResults\<lparr>minFPS := Fin 58, maxFPS := Fin 61, avgFPS := Fin 60\<rparr>),
           (''3/11/2026'', ''10:05:00'', Heavy, initial_testResults)]
          (initial_state False Map.empty) = Inr s'
        \<and> persisted_history s' = Some ys
        \<and> length ys \<le> 10
        \<and> hd ys = loaded_entry False (''3/11/2026'', ''10:05:00'', Heavy, initial_testResults))"
proof -
  have h1: "persisted_history (initial_state False Map.empty) = Some []"
    by (simp add: persisted_history_def load_savedResults_def JSON_parse_def initial_state_def)
  have h2: "[(''3/11/2026'', ''10:00:00'', Light, initial_testResults\<lparr>minFPS := Fin 58, maxFPS := Fin 61, avgFPS := Fin 60\<rparr>),
       (''3/11/2026'', ''10:05:00'', Heavy, initial_testResults)] \<noteq> []"
    by simp
  have m: "isMobile (initial_state False Map.empty) = False"
    by (simp add: initial_state_def)
  from history_capped_newest_first [OF h1 h2] m h1 h2 show ?thesis
    by auto
qed

text \<open>
  C8 (amended). Loading the history returns the empty sequence when no value, or the
  empty string, is stored, and the value of the stored JSON text otherwise (the
  persisted sequence, for an array). A stored string that is not a JSON text is not
  taken as an empty history: \<^verbatim>\<open>JSON.parse\<close> raises a SyntaxError, in loading and in
  \<^verbatim>\<open>saveTestResults\<close>, and nothing catches it.
\<close>

theorem load_savedResults_outcomes:
  "load_savedResults (s\<lparr>localStorage := (localStorage s)(''gpuTestResults'' := None)\<rparr>) = Inr (VArr [])
   \<and> load_savedResults (s\<lparr>localStorage := (localStorage s)(''gpuTestResults'' \<mapsto> EmptyText)\<rparr>)
       = Inr (VArr [])
   \<and> load_savedResults (s\<lparr>localStorage := (localStorage s)(''gpuTestResults'' \<mapsto> JsonText j)\<rparr>)
       = Inr (of_json j)
   \<and> load_savedResults (s\<lparr>localStorage := (localStorage s)(''gpuTestResults'' \<mapsto> JsonText (JArr js))\<rparr>)
       = Inr (VArr (map of_json js))
   \<and> load_savedResults (s\<lparr>localStorage := (localStorage s)(''gpuTestResults'' \<mapsto> MalformedText)\<rparr>)
       = Inl SyntaxError
   \<and> saveTestResults d t (s\<lparr>localStorage := (localStorage s)(''gpuTestResults'' \<mapsto> MalformedText)\<rparr>)
       = Inl SyntaxError"
  by (simp add: load_savedResults_cases saveTestResults_def)

theorem malformed_history_raises:
  "load_savedResults ((initial_state False Map.empty)
      \<lparr>localStorage := [''gpuTestResults'' \<mapsto> MalformedText]\<rparr>) = Inl SyntaxError
   \<and> load_savedResults ((initial_state False Map.empty)
      \<lparr>localStorage := [''gpuTestResults'' \<mapsto> MalformedText]\<rparr>) \<noteq> Inr (VArr [])"
  by (simp add: load_savedResults_cases)

lemma persisted_history_SomeD: "persisted_history s = Some ys \<Longrightarrow> load_savedResults s = Inr (VArr ys)"
  by (auto simp: persisted_history_def split: sum.splits jsval.splits)

lemma persisted_history_cong:
  "localStorage s = localStorage s' \<Longrightarrow> persisted_history s = persisted_history s'"
  by (simp add: persisted_history_def load_savedResults_def)

lemma saveTestResults_null_minFPS:
  assumes "persisted_history s = Some xs" and "minFPS (testResults s) = PInf"
  shows "\<exists>s' e rest. saveTestResults d t s = Inr s'
     \<and> minFPS (testResults s') = PInf
     \<and> load_savedResults s' = Inr (VArr (e # rest))
     \<and> js_get e ''minFPS'' = Some VNull"
proof -
  let ?e = "loaded_entry (isMobile s) (d, t, currentLevel s, testResults s)"
  from saveTestResults_appends [OF assms(1), of d t] obtain s' where
    s': "saveTestResults d t s = Inr s'" "persisted_history s' = Some (take 10 (?e # xs))"
    by blast
  have "load_savedResults s' = Inr (VArr (?e # take 9 xs))"
    using persisted_history_SomeD [OF s'(2)] by simp
  moreover have "js_get ?e ''minFPS'' = Some VNull"
    by (simp add: loaded_entry_def result_object_def js_get_def assms(2))
  moreover have "minFPS (testResults s') = PInf"
    using s'(1) assms(2) by (auto simp: saveTestResults_def Let_def split: sum.splits jsval.splits)
  ultimately show ?thesis using s'(1) by blast
qed

text \<open>
  C10. When the minimum is still \<^verbatim>\<open>Infinity\<close> (no sample was emitted), the object that
  \<^verbatim>\<open>saveTestResults\<close> builds carries \<^verbatim>\<open>minFPS: Infinity\<close>, the entry it persists at the
  head of the history has \<^verbatim>\<open>minFPS\<close> equal to \<^verbatim>\<open>null\<close>, and loading the history returns
  that \<^verbatim>\<open>null\<close>; so it is at the end of a run, through \<^verbatim>\<open>stopGPUTest\<close> and through
  \<^verbatim>\<open>stopFallbackTest\<close>.
\<close>

theorem infinity_minFPS_persisted_as_null:
  assumes "persisted_history s = Some xs" and "minFPS (testResults s) = PInf"
    and "isTestRunning s"
  shows "js_get (result_object d t (currentLevel s) (isMobile s) (testResults s)) ''minFPS''
           = Some (VNum PInf)
     \<and> (\<exists>s' e rest. saveTestResults d t s = Inr s'
           \<and> load_savedResults s' = Inr (VArr (e # rest)) \<and> js_get e ''minFPS'' = Some VNull)
     \<and> (\<exists>s' e rest. stopGPUTest d t s = Inr s'
           \<and> load_savedResults s' = Inr (VArr (e # rest)) \<and> js_get e ''minFPS'' = Some VNull)
     \<and> (\<exists>s' e rest. stopFallbackTest d t s = Inr s'
           \<and> load_savedResults s' = Inr (VArr (e # rest)) \<and> js_get e ''minFPS'' = Some VNull)"
proof (intro conjI)
  show "js_get (result_object d t (currentLevel s) (isMobile s) (testResults s)) ''minFPS''
           = Some (VNum PInf)"
    by (simp add: result_object_def js_get_def assms(2))
  show "\<exists>s' e rest. saveTestResults d t s = Inr s'
           \<and> load_savedResults s' = Inr (VArr (e # rest)) \<and> js_get e ''minFPS'' = Some VNull"
    using saveTestResults_null_minFPS [OF assms(1,2)] by blast
next
  define s3 where "s3 = snd (calculateScore
     (case animationId (s\<lparr>isTestRunning := False\<rparr>) of
        Some i \<Rightarrow> if i \<noteq> 0 then (cancelAnimationFrame i (s\<lparr>isTestRunning := False\<rparr>))\<lparr>animationId := None\<rparr>
                  else s\<lparr>isTestRunning := False\<rparr>
      | None \<Rightarrow> s\<lparr>isTestRunning := False\<rparr>))"
  have stop: "stopGPUTest d t s = saveTestResults d t s3"
    using assms(3) by (simp add: stopGPUTest_def s3_def Let_def split: prod.splits)
  have "localStorage s3 = localStorage s"
    by (simp add: s3_def calculateScore_def Let_def cancelAnimationFrame_def split: option.splits)
  then have h: "persisted_history s3 = Some xs"
    using assms(1) persisted_history_cong by metis
  have m: "minFPS (testResults s3) = PInf"
    using assms(2)
    by (simp add: s3_def calculateScore_def Let_def cancelAnimationFrame_def split: option.splits)
  show "\<exists>s' e rest. stopGPUTest d t s = Inr s'
           \<and> load_savedResults s' = Inr (VArr (e # rest)) \<and> js_get e ''minFPS'' = Some VNull"
    using saveTestResults_null_minFPS [OF h m, of d t] stop by auto
next
  define s3 where "s3 =
     (case fallbackAnimationId (s\<lparr>isTestRunning := False\<rparr>) of
        Some i \<Rightarrow> if i \<noteq> 0 then (cancelAnimationFrame i (s\<lparr>isTestRunning := False\<rparr>))\<lparr>fallbackAnimationId := None\<rparr>
                  else s\<lparr>isTestRunning := False\<rparr>
      | None \<Rightarrow> s\<lparr>isTestRunning := False\<rparr>)"
  have stop: "stopFallbackTest d t s
      = saveTestResults d t (s3\<lparr>testResults := fallback_score (testResults s3)\<rparr>)"
    by (simp add: stopFallbackTest_def s3_def Let_def)
  have "localStorage (s3\<lparr>testResults := fallback_score (testResults s3)\<rparr>) = localStorage s"
    by (simp add: s3_def cancelAnimationFrame_def split: option.splits)
  then have h: "persisted_history (s3\<lparr>testResults := fallback_score (testResults s3)\<rparr>) = Some xs"
    using assms(1) persisted_history_cong by metis
  have m: "minFPS (testResults (s3\<lparr>testResults := fallback_score (testResults s3)\<rparr>)) = PInf"
    using assms(2)
    by (simp add: s3_def fallback_score_def Let_def cancelAnimationFrame_def split: option.splits)
  show "\<exists>s' e rest. stopFallbackTest d t s = Inr s'
           \<and> load_savedResults s' = Inr (VArr (e # rest)) \<and> js_get e ''minFPS'' = Some VNull"
    using saveTestResults_null_minFPS [OF h m, of d t] stop by auto
qed

theorem infinity_minFPS_persisted_as_null_witness:
  "persisted_history ((initial_state False Map.empty)\<lparr>isTestRunning := True\<rparr>) = Some []
   \<and> minFPS (testResults ((initial_state False Map.empty)\<lparr>isTestRunning := True\<rparr>)) = PInf
   \<and> isTestRunning ((initial_state False Map.empty)\<lparr>isTestRunning := True\<rparr>)
   \<and> (\<exists>s' e rest. stopGPUTest ''3/11/2026'' ''10:00:00''
           ((initial_state False Map.empty)\<lparr>isTestRunning := True\<rparr>) = Inr s'
         \<and> load_savedResults s' = Inr (VArr (e # rest)) \<and> js_get e ''minFPS'' = Some VNull)"
proof -
  have h1: "persisted_history ((initial_state False Map.empty)\<lparr>isTestRunning := True\<rparr>) = Some []"
    by (simp add: persisted_history_def load_savedResults_def JSON_parse_def initial_state_def)
  have h2: "minFPS (testResults ((initial_state False Map.empty)\<lparr>isTestRunning := True\<rparr>)) = PInf"
    by (simp add: initial_state_def initial_testResults_def)
  have h3: "isTestRunning ((initial_state False Map.empty)\<lparr>isTestRunning := True\<rparr>)"
    by simp
  from infinity_minFPS_persisted_as_null [OF h1 h2 h3, of "''3/11/2026''" "''10:00:00''"] h1 h2 h3
  show ?thesis by blast
qed

section \<open>The test loops: theorems\<close>

lemma same_stats_refl: "same_stats s s"
  by (simp add: same_stats_def)

lemma same_stats_trans: "same_stats s s1 \<Longrightarrow> same_stats s1 s2 \<Longrightarrow> same_stats s s2"
  by (simp add: same_stats_def)

lemma same_stats_rafQueue: "same_stats s (s\<lparr>rafQueue := q\<rparr>)"
  by (simp add: same_stats_def)

lemma same_stats_schedule_animate: "same_stats s (schedule_animate s)"
  by (simp add: same_stats_def schedule_animate_def requestAnimationFrame_def)

lemma same_stats_schedule_updateFallbackTest: "same_stats s (schedule_updateFallbackTest s)"
  by (simp add: same_stats_def schedule_updateFallbackTest_def requestAnimationFrame_def)

lemma same_stats_saveTestResults: "saveTestResults d t s = Inr s' \<Longrightarrow> same_stats s s'"
  by (auto simp: saveTestResults_def same_stats_def Let_def split: sum.splits jsval.splits)

lemma same_stats_calculateScore: "same_stats s (snd (calculateScore s))"
  by (simp add: same_stats_def calculateScore_def Let_def)

lemma same_stats_cancel: "same_stats s (cancelAnimationFrame i s)"
  by (simp add: same_stats_def cancelAnimationFrame_def)

lemma same_stats_stopGPUTest:
  assumes "stopGPUTest d t s = Inr s'"
  shows "same_stats s s'"
proof (cases "isTestRunning s")
  case False
  with assms show ?thesis by (simp add: stopGPUTest_def same_stats_refl)
next
  case True
  define s2 where "s2 = (case animationId (s\<lparr>isTestRunning := False\<rparr>) of
        Some i \<Rightarrow> if i \<noteq> 0 then (cancelAnimationFrame i (s\<lparr>isTestRunning := False\<rparr>))\<lparr>animationId := None\<rparr>
                  else s\<lparr>isTestRunning := False\<rparr>
      | None \<Rightarrow> s\<lparr>isTestRunning := False\<rparr>)"
  have a: "same_stats s s2"
    by (simp add: s2_def same_stats_def cancelAnimationFrame_def split: option.splits)
  have "saveTestResults d t (snd (calculateScore s2)) = Inr s'"
    using assms True by (simp add: stopGPUTest_def s2_def Let_def split: prod.splits)
  then have "same_stats (snd (calculateScore s2)) s'" by (rule same_stats_saveTestResults)
  with a same_stats_calculateScore [of s2] show ?thesis
    by (blast intro: same_stats_trans)
qed

lemma same_stats_stopFallbackTest:
  assumes "stopFallbackTest d t s = Inr s'"
  shows "same_stats s s'"
proof -
  define s3 where "s3 =
     (case fallbackAnimationId (s\<lparr>isTestRunning := False\<rparr>) of
        Some i \<Rightarrow> if i \<noteq> 0 then (cancelAnimationFrame i (s\<lparr>isTestRunning := False\<rparr>))\<lparr>fallbackAnimationId := None\<rparr>
                  else s\<lparr>isTestRunning := False\<rparr>
      | None \<Rightarrow> s\<lparr>isTestRunning := False\<rparr>)"
  have a: "same_stats s (s3\<lparr>testResults := fallback_score (testResults s3)\<rparr>)"
    by (simp add: s3_def same_stats_def cancelAnimationFrame_def fallback_score_def Let_def
        split: option.splits)
  have "saveTestResults d t (s3\<lparr>testResults := fallback_score (testResults s3)\<rparr>) = Inr s'"
    using assms by (simp add: stopFallbackTest_def s3_def Let_def)
  then show ?thesis using a same_stats_saveTestResults same_stats_trans by blast
qed

lemma animate_steps:
  assumes "animate env s = Inr s'"
  shows "\<exists>s1 s2. same_stats s s1 \<and> (s2 = s1 \<or> s2 = update_fps env s1) \<and> same_stats s2 s'"
proof (cases "isTestRunning s")
  case False
  with assms have "s' = s" by (simp add: animate_def)
  then show ?thesis using same_stats_refl by blast
next
  case True
  let ?s1 = "schedule_animate s"
  show ?thesis
  proof (cases "testDuration - (clock_elapsed env - testStartTime ?s1) div 1000 \<le> 0")
    case stop: True
    with assms True have "stopGPUTest (date_string env) (time_string env) ?s1 = Inr s'"
      by (simp add: animate_def Let_def max_def split: if_splits)
    then have "same_stats ?s1 s'" by (rule same_stats_stopGPUTest)
    then show ?thesis using same_stats_schedule_animate by blast
  next
    case False
    with assms True have "s' = update_fps env ?s1"
      by (simp add: animate_def Let_def max_def split: if_splits)
    then show ?thesis using same_stats_schedule_animate same_stats_refl by blast
  qed
qed

lemma updateFallbackTest_steps:
  assumes "updateFallbackTest env s = Inr s'"
  shows "\<exists>s1 s2. same_stats s s1 \<and> (s2 = s1 \<or> s2 = update_fallback_fps env s1) \<and> same_stats s2 s'"
proof (cases "isTestRunning s")
  case False
  with assms have "s' = s" by (simp add: updateFallbackTest_def)
  then show ?thesis using same_stats_refl by blast
next
  case True
  let ?s1 = "update_fallback_fps env s"
  show ?thesis
  proof (cases "testDuration - (clock_now env - testStartTime s) div 1000 > 0")
    case go: True
    with assms True have "s' = schedule_updateFallbackTest ?s1"
      by (simp add: updateFallbackTest_def Let_def max_def split: if_splits)
    then show ?thesis using same_stats_schedule_updateFallbackTest same_stats_refl by blast
  next
    case False
    with assms True have "stopFallbackTest (date_string env) (time_string env) ?s1 = Inr s'"
      by (simp add: updateFallbackTest_def Let_def max_def split: if_splits)
    then have "same_stats ?s1 s'" by (rule same_stats_stopFallbackTest)
    then show ?thesis using same_stats_refl by blast
  qed
qed

lemma run_callback_steps:
  assumes "run_callback env s = Inr s'"
  shows "\<exists>s1 s2. same_stats s s1
     \<and> (s2 = s1 \<or> s2 = update_fps env s1 \<or> s2 = update_fallback_fps env s1)
     \<and> same_stats s2 s'"
proof (cases "rafQueue s")
  case Nil
  with assms have "s' = s" by (simp add: run_callback_def)
  then show ?thesis using same_stats_refl by blast
next
  case (Cons e queue)
  obtain i cb where e: "e = (i, cb)" by (cases e)
  have q: "same_stats s (s\<lparr>rafQueue := queue\<rparr>)" by (rule same_stats_rafQueue)
  show ?thesis
  proof (cases cb)
    case Animate
    with assms Cons e have "animate env (s\<lparr>rafQueue := queue\<rparr>) = Inr s'"
      by (simp add: run_callback_def)
    from animate_steps [OF this] q show ?thesis
      by (blast intro: same_stats_trans)
  next
    case UpdateFallbackTest
    with assms Cons e have "updateFallbackTest env (s\<lparr>rafQueue := queue\<rparr>) = Inr s'"
      by (simp add: run_callback_def)
    from updateFallbackTest_steps [OF this] q show ?thesis
      by (blast intro: same_stats_trans)
  qed
qed


lemma same_stats_samples: "same_stats s s' \<Longrightarrow> samples_emitted s' = samples_emitted s"
  by (simp add: same_stats_def samples_emitted_def)

lemma same_stats_lastFPSUpdate: "same_stats s s' \<Longrightarrow> lastFPSUpdate s' = lastFPSUpdate s"
  by (simp add: same_stats_def)

lemma same_stats_consistent: "same_stats s s' \<Longrightarrow> stats_consistent k s' = stats_consistent k s"
  by (simp add: same_stats_def stats_consistent_def Let_def)

lemma update_fps_window:
  "frameCount (update_fps env s)
     = (if 1000 \<le> clock_now env - lastFPSUpdate s then 0 else frameCount s + 1)"
  "lastFPSUpdate (update_fps env s)
     = (if 1000 \<le> clock_now env - lastFPSUpdate s then clock_now env else lastFPSUpdate s)"
  "fps_display (update_fps env s)
     = (if 1000 \<le> clock_now env - lastFPSUpdate s
        then spec_fps (frameCount s + 1) (clock_now env) (lastFPSUpdate s) # fps_display s
        else fps_display s)"
  "fallback_fps (update_fps env s) = fallback_fps s"
  "totalFrames (update_fps env s) = totalFrames s + 1"
  "testStartTime (update_fps env s) = testStartTime s"
  by (simp_all add: update_fps_def Let_def spec_fps_def)

lemma update_fallback_fps_window:
  "frameCount (update_fallback_fps env s)
     = (if 1000 \<le> clock_now env - lastFPSUpdate s then 0 else frameCount s + 1)"
  "lastFPSUpdate (update_fallback_fps env s)
     = (if 1000 \<le> clock_now env - lastFPSUpdate s then clock_now env else lastFPSUpdate s)"
  "fallback_fps (update_fallback_fps env s)
     = (if 1000 \<le> clock_now env - lastFPSUpdate s
        then spec_fps (frameCount s + 1) (clock_now env) (lastFPSUpdate s) # fallback_fps s
        else fallback_fps s)"
  "fps_display (update_fallback_fps env s) = fps_display s"
  "totalFrames (update_fallback_fps env s) = totalFrames s + 1"
  "testStartTime (update_fallback_fps env s) = testStartTime s"
  by (simp_all add: update_fallback_fps_def Let_def spec_fps_def)

lemma spec_fps_value:
  assumes "1000 \<le> now - ws"
  shows "spec_fps n now ws
     = Fin (of_int \<lfloor>fl (of_nat n / fl (of_int (now - ws) / 1000)) + 1 / 2\<rfloor>)"
proof -
  have "(0::rat) < of_int (now - ws)" using assms by simp
  then have "0 < fl (of_int (now - ws) / 1000)"
    by (intro fl_pos) simp
  then show ?thesis by (simp add: spec_fps_def)
qed

lemma spec_fps_nonneg:
  assumes "1000 \<le> now - ws"
  shows "\<exists>v. spec_fps n now ws = Fin v \<and> 0 \<le> v"
proof -
  have "(0::rat) < of_int (now - ws)" using assms by simp
  then have y: "0 < fl (of_int (now - ws) / 1000)"
    by (intro fl_pos) simp
  have "0 \<le> fl (of_nat n / fl (of_int (now - ws) / 1000))"
  proof (cases "n = 0")
    case True
    then show ?thesis by simp
  next
    case False
    then have "(0::rat) < of_nat n / fl (of_int (now - ws) / 1000)" using y by simp
    then show ?thesis using fl_pos by (simp add: less_imp_le)
  qed
  then have "0 \<le> \<lfloor>fl (of_nat n / fl (of_int (now - ws) / 1000)) + 1 / 2\<rfloor>"
    by simp
  then show ?thesis using spec_fps_value [OF assms] by simp
qed

text \<open>The statistics after a callback that emits a sample: avgFPS is the same
  expression as the sample, over all frames and the time since the test start.\<close>

lemma update_fps_results:
  assumes "1000 \<le> clock_now env - lastFPSUpdate s"
  shows "minFPS (testResults (update_fps env s))
       = Math_min (minFPS (testResults s)) (spec_fps (frameCount s + 1) (clock_now env) (lastFPSUpdate s))"
    and "maxFPS (testResults (update_fps env s))
       = Math_max (maxFPS (testResults s)) (spec_fps (frameCount s + 1) (clock_now env) (lastFPSUpdate s))"
    and "avgFPS (testResults (update_fps env s))
       = spec_fps (totalFrames s + 1) (clock_now env) (testStartTime s)"
  using assms by (simp_all add: update_fps_def Let_def spec_fps_def)

lemma update_fallback_fps_results:
  assumes "1000 \<le> clock_now env - lastFPSUpdate s"
  shows "minFPS (testResults (update_fallback_fps env s))
       = Math_min (minFPS (testResults s)) (spec_fps (frameCount s + 1) (clock_now env) (lastFPSUpdate s))"
    and "maxFPS (testResults (update_fallback_fps env s))
       = Math_max (maxFPS (testResults s)) (spec_fps (frameCount s + 1) (clock_now env) (lastFPSUpdate s))"
    and "avgFPS (testResults (update_fallback_fps env s))
       = spec_fps (totalFrames s + 1) (clock_now env) (testStartTime s)"
  using assms by (simp_all add: update_fallback_fps_def Let_def spec_fps_def)

lemma step_rate:
  assumes "s2 = s1 \<or> s2 = update_fps env s1 \<or> s2 = update_fallback_fps env s1"
  shows "samples_emitted s1 \<le> samples_emitted s2 \<and> samples_emitted s2 \<le> samples_emitted s1 + 1
     \<and> rate_potential s1 \<le> rate_potential s2
     \<and> (lastFPSUpdate s2 = lastFPSUpdate s1 \<or> lastFPSUpdate s2 = clock_now env)"
  using assms
  by (auto simp: samples_emitted_def rate_potential_def update_fps_window update_fallback_fps_window)

lemma run_callback_rate:
  assumes "run_callback env s = Inr s'"
  shows "samples_emitted s \<le> samples_emitted s' \<and> samples_emitted s' \<le> samples_emitted s + 1
     \<and> rate_potential s \<le> rate_potential s'
     \<and> (lastFPSUpdate s' = lastFPSUpdate s \<or> lastFPSUpdate s' = clock_now env)"
proof -
  from run_callback_steps [OF assms] obtain s1 s2 where
    st: "same_stats s s1" "s2 = s1 \<or> s2 = update_fps env s1 \<or> s2 = update_fallback_fps env s1"
      "same_stats s2 s'"
    by blast
  have e1: "samples_emitted s1 = samples_emitted s" "lastFPSUpdate s1 = lastFPSUpdate s"
    using st(1) by (simp_all add: same_stats_samples same_stats_lastFPSUpdate)
  have e2: "samples_emitted s' = samples_emitted s2" "lastFPSUpdate s' = lastFPSUpdate s2"
    using st(3) by (simp_all add: same_stats_samples same_stats_lastFPSUpdate)
  from step_rate [OF st(2)] e1 e2 show ?thesis
    by (simp add: rate_potential_def)
qed

lemma run_callbacks_rate:
  assumes "run_callbacks envs s = Inr s'"
  shows "samples_emitted s \<le> samples_emitted s'
     \<and> samples_emitted s' \<le> samples_emitted s + length envs
     \<and> rate_potential s \<le> rate_potential s'
     \<and> (lastFPSUpdate s' = lastFPSUpdate s \<or> lastFPSUpdate s' \<in> clock_now ` set envs)"
  using assms
proof (induction envs arbitrary: s)
  case Nil
  then show ?case by simp
next
  case (Cons env envs)
  from Cons.prems obtain s1 where s1: "run_callback env s = Inr s1" "run_callbacks envs s1 = Inr s'"
    by (auto split: sum.splits)
  from run_callback_rate [OF s1(1)] Cons.IH [OF s1(2)] show ?case
    by auto
qed


lemma startGPUTest_running_noop:
  "isTestRunning s \<Longrightarrow> startGPUTest lvl t_start t_last env s = Inr s"
  by (simp add: startGPUTest_def)

lemma schedule_animate_eq:
  "schedule_animate s = s\<lparr>rafQueue := rafQueue s @ [(rafNext s, Animate)],
     rafNext := rafNext s + 1, animationId := Some (rafNext s)\<rparr>"
  by (simp add: schedule_animate_def requestAnimationFrame_def)

lemma schedule_updateFallbackTest_eq:
  "schedule_updateFallbackTest s = s\<lparr>rafQueue := rafQueue s @ [(rafNext s, UpdateFallbackTest)],
     rafNext := rafNext s + 1, fallbackAnimationId := Some (rafNext s)\<rparr>"
  by (simp add: schedule_updateFallbackTest_def requestAnimationFrame_def)

lemma animate_running:
  assumes "isTestRunning s" and "clock_elapsed env - testStartTime s < 30000"
  shows "animate env s = Inr (update_fps env (schedule_animate s))"
proof -
  have "(clock_elapsed env - testStartTime s) div 1000 < 30"
    using assms(2) by linarith
  then show ?thesis using assms(1)
    by (simp add: animate_def Let_def testDuration_def schedule_animate_eq max_def)
qed

lemma updateFallbackTest_running:
  assumes "isTestRunning s" and "clock_now env - testStartTime s < 30000"
  shows "updateFallbackTest env s = Inr (schedule_updateFallbackTest (update_fallback_fps env s))"
proof -
  have "(clock_now env - testStartTime s) div 1000 < 30"
    using assms(2) by linarith
  then show ?thesis using assms(1)
    by (simp add: updateFallbackTest_def Let_def testDuration_def max_def)
qed

text \<open>
  C9. The claim holds for \<^verbatim>\<open>startGPUTest\<close> (lemma \<open>startGPUTest_running_noop\<close>) and fails
  for \<^verbatim>\<open>startFallbackTest\<close>, which has no test of \<^verbatim>\<open>isTestRunning\<close>: called on a page
  where a 2D test started at time 0 is running, it changes the level, restarts the clock
  and queues a second \<^verbatim>\<open>updateFallbackTest\<close> callback beside the live one.
\<close>

theorem startFallbackTest_restarts_running_test:
  "isTestRunning (startFallbackTest Light 0 0 demo_page)
   \<and> rafQueue (startFallbackTest Light 0 0 demo_page) = [(1, UpdateFallbackTest)]
   \<and> currentLevel (startFallbackTest Heavy 500 500 (startFallbackTest Light 0 0 demo_page)) = Heavy
   \<and> testStartTime (startFallbackTest Heavy 500 500 (startFallbackTest Light 0 0 demo_page)) = 500
   \<and> rafQueue (startFallbackTest Heavy 500 500 (startFallbackTest Light 0 0 demo_page))
       = [(1, UpdateFallbackTest), (2, UpdateFallbackTest)]
   \<and> startFallbackTest Heavy 500 500 (startFallbackTest Light 0 0 demo_page)
       \<noteq> startFallbackTest Light 0 0 demo_page"
proof -
  have q1: "rafQueue (startFallbackTest Light 0 0 demo_page) = [(1, UpdateFallbackTest)]"
    by (simp add: startFallbackTest_def schedule_updateFallbackTest_eq demo_page_def initial_state_def)
  have q2: "rafQueue (startFallbackTest Heavy 500 500 (startFallbackTest Light 0 0 demo_page))
       = [(1, UpdateFallbackTest), (2, UpdateFallbackTest)]"
    by (simp add: startFallbackTest_def schedule_updateFallbackTest_eq demo_page_def initial_state_def)
  have "startFallbackTest Heavy 500 500 (startFallbackTest Light 0 0 demo_page)
       \<noteq> startFallbackTest Light 0 0 demo_page"
    using q1 q2 by (metis list.inject list.distinct(1))
  then show ?thesis using q1 q2
    by (simp add: startFallbackTest_def schedule_updateFallbackTest_eq)
qed

text \<open>
  C3 (amended). A frame callback of a running test whose time is not up runs the
  sampling block. The block adds one to the frame count; when 1000 ms or more have
  passed since the window start it emits the sample
  \<open>round(frameCount / ((now - windowStart) / 1000))\<close>, which is at least 0, sets the frame
  count to 0 and the window start to \<open>now\<close>; otherwise it emits nothing. Over any
  sequence of callbacks it emits at most one sample per callback and at most one per
  1000 ms: 1000 times the number of samples is at most the advance of the window
  start, which is the time of one of the callbacks unless it has not moved.
\<close>

theorem sampler_at_most_one_per_second:
  "(isTestRunning s \<and> clock_elapsed env - testStartTime s < 30000
      \<longrightarrow> animate env s = Inr (update_fps env (schedule_animate s)))
   \<and> (isTestRunning s \<and> clock_now env - testStartTime s < 30000
      \<longrightarrow> updateFallbackTest env s = Inr (schedule_updateFallbackTest (update_fallback_fps env s)))
   \<and> frameCount (update_fps env s)
       = (if 1000 \<le> clock_now env - lastFPSUpdate s then 0 else frameCount s + 1)
   \<and> lastFPSUpdate (update_fps env s)
       = (if 1000 \<le> clock_now env - lastFPSUpdate s then clock_now env else lastFPSUpdate s)
   \<and> fps_display (update_fps env s)
       = (if 1000 \<le> clock_now env - lastFPSUpdate s
          then spec_fps (frameCount s + 1) (clock_now env) (lastFPSUpdate s) # fps_display s
          else fps_display s)
   \<and> frameCount (update_fallback_fps env s)
       = (if 1000 \<le> clock_now env - lastFPSUpdate s then 0 else frameCount s + 1)
   \<and> lastFPSUpdate (update_fallback_fps env s)
       = (if 1000 \<le> clock_now env - lastFPSUpdate s then clock_now env else lastFPSUpdate s)
   \<and> fallback_fps (update_fallback_fps env s)
       = (if 1000 \<le> clock_now env - lastFPSUpdate s
          then spec_fps (frameCount s + 1) (clock_now env) (lastFPSUpdate s) # fallback_fps s
          else fallback_fps s)
   \<and> (1000 \<le> clock_now env - lastFPSUpdate s
      \<longrightarrow> (\<exists>v. spec_fps (frameCount s + 1) (clock_now env) (lastFPSUpdate s) = Fin v \<and> 0 \<le> v))
   \<and> (run_callbacks envs s = Inr s'
      \<longrightarrow> samples_emitted s \<le> samples_emitted s'
        \<and> samples_emitted s' - samples_emitted s \<le> length envs
        \<and> 1000 * int (samples_emitted s' - samples_emitted s) \<le> lastFPSUpdate s' - lastFPSUpdate s
        \<and> (lastFPSUpdate s' = lastFPSUpdate s \<or> lastFPSUpdate s' \<in> clock_now ` set envs))"
proof (intro conjI impI)
  assume r: "run_callbacks envs s = Inr s'"
  note rate = run_callbacks_rate [OF r]
  show "samples_emitted s \<le> samples_emitted s'" using rate by simp
  show "samples_emitted s' - samples_emitted s \<le> length envs" using rate by linarith
  show "1000 * int (samples_emitted s' - samples_emitted s) \<le> lastFPSUpdate s' - lastFPSUpdate s"
    using rate by (simp add: rate_potential_def of_nat_diff)
  show "lastFPSUpdate s' = lastFPSUpdate s \<or> lastFPSUpdate s' \<in> clock_now ` set envs"
    using rate by simp
qed (simp_all add: animate_running updateFallbackTest_running update_fps_window
    update_fallback_fps_window spec_fps_nonneg)

theorem sampler_at_most_one_per_second_witness:
  "isTestRunning demo_running
   \<and> clock_elapsed (demo_env 1000 1000) - testStartTime demo_running < 30000
   \<and> clock_now (demo_env 1000 1000) - testStartTime demo_running < 30000
   \<and> 1000 \<le> clock_now (demo_env 1000 1000) - lastFPSUpdate demo_running
   \<and> run_callbacks [demo_env 1000 1000] demo_running
       = Inr (update_fps (demo_env 1000 1000) (schedule_animate (demo_running\<lparr>rafQueue := []\<rparr>)))
   \<and> animate (demo_env 1000 1000) demo_running
       = Inr (update_fps (demo_env 1000 1000) (schedule_animate demo_running))
   \<and> (\<exists>v. spec_fps (frameCount demo_running + 1) (clock_now (demo_env 1000 1000))
             (lastFPSUpdate demo_running) = Fin v \<and> 0 \<le> v)
   \<and> 1000 * int (samples_emitted
          (update_fps (demo_env 1000 1000) (schedule_animate (demo_running\<lparr>rafQueue := []\<rparr>)))
        - samples_emitted demo_running)
      \<le> lastFPSUpdate (update_fps (demo_env 1000 1000) (schedule_animate (demo_running\<lparr>rafQueue := []\<rparr>)))
        - lastFPSUpdate demo_running"
proof -
  have h1: "isTestRunning demo_running"
    by (simp add: demo_running_def)
  have h2: "clock_elapsed (demo_env 1000 1000) - testStartTime demo_running < 30000"
    by (simp add: demo_running_def demo_env_def demo_page_def initial_state_def)
  have h3: "clock_now (demo_env 1000 1000) - testStartTime demo_running < 30000"
    by (simp add: demo_running_def demo_env_def demo_page_def initial_state_def)
  have h4: "1000 \<le> clock_now (demo_env 1000 1000) - lastFPSUpdate demo_running"
    by (simp add: demo_running_def demo_env_def demo_page_def initial_state_def)
  have h1': "isTestRunning (demo_running\<lparr>rafQueue := []\<rparr>)"
    by (simp add: demo_running_def)
  have h2': "clock_elapsed (demo_env 1000 1000) - testStartTime (demo_running\<lparr>rafQueue := []\<rparr>) < 30000"
    by (simp add: demo_running_def demo_env_def demo_page_def initial_state_def)
  have h5: "run_callbacks [demo_env 1000 1000] demo_running
       = Inr (update_fps (demo_env 1000 1000) (schedule_animate (demo_running\<lparr>rafQueue := []\<rparr>)))"
    using animate_running [OF h1' h2']
    by (simp add: run_callback_def demo_running_def)
  from sampler_at_most_one_per_second [of demo_running "demo_env 1000 1000" "[demo_env 1000 1000]"
      "update_fps (demo_env 1000 1000) (schedule_animate (demo_running\<lparr>rafQueue := []\<rparr>))"]
    h1 h2 h3 h4 h5
  show ?thesis by blast
qed

theorem one_sample_in_2500_ms:
  "map_sum id samples_emitted (run_callbacks [demo_env 2500 2500] demo_running)
     = Inr (samples_emitted demo_running + 1)
   \<and> (clock_now (demo_env 2500 2500) - lastFPSUpdate demo_running) div 1000 = 2"
proof -
  have h1': "isTestRunning (demo_running\<lparr>rafQueue := []\<rparr>)"
    by (simp add: demo_running_def)
  have h2': "clock_elapsed (demo_env 2500 2500) - testStartTime (demo_running\<lparr>rafQueue := []\<rparr>) < 30000"
    by (simp add: demo_running_def demo_env_def demo_page_def initial_state_def)
  have "run_callbacks [demo_env 2500 2500] demo_running
       = Inr (update_fps (demo_env 2500 2500) (schedule_animate (demo_running\<lparr>rafQueue := []\<rparr>)))"
    using animate_running [OF h1' h2']
    by (simp add: run_callback_def demo_running_def)
  moreover have "lastFPSUpdate (schedule_animate (demo_running\<lparr>rafQueue := []\<rparr>)) = 0"
    by (simp add: schedule_animate_eq demo_running_def demo_page_def initial_state_def)
  ultimately show ?thesis
    by (simp add: samples_emitted_def update_fps_window schedule_animate_eq
        demo_running_def demo_env_def demo_page_def initial_state_def)
qed

section \<open>The running statistics: theorems\<close>

lemma rate_factors:
  "0 < rate_down" "0 < rate_up" "(rate_up - rate_down) * 2 ^ 50 \<le> 1"
  by (simp_all add: rate_up_def rate_down_def unit_roundoff_def)

text \<open>A sample \<open>round(f / (d / 1000))\<close>, less or plus one half, against \<open>1000 f\<close>.\<close>

lemma rounded_sample_bounds:
  fixes f d :: rat
  assumes f: "0 < f" and d: "0 < d"
  shows "(of_int \<lfloor>fl (f / fl (d / 1000)) + 1 / 2\<rfloor> - 1 / 2) * d \<le> rate_up * (1000 * f)"
    and "rate_down * (1000 * f) < (of_int \<lfloor>fl (f / fl (d / 1000)) + 1 / 2\<rfloor> + 1 / 2) * d"
proof -
  let ?r = "fl (f / fl (d / 1000))"
  note b = rounded_quotient_bounds [OF f d]
  have "of_int \<lfloor>?r + 1 / 2\<rfloor> \<le> ?r + 1 / 2" by (rule of_int_floor_le)
  then have "of_int \<lfloor>?r + 1 / 2\<rfloor> - 1 / 2 \<le> rate_up * (1000 * f / d)"
    using b(2) by linarith
  then have "(of_int \<lfloor>?r + 1 / 2\<rfloor> - 1 / 2) * d \<le> rate_up * (1000 * f / d) * d"
    using d by (intro mult_right_mono) simp_all
  then show "(of_int \<lfloor>?r + 1 / 2\<rfloor> - 1 / 2) * d \<le> rate_up * (1000 * f)"
    using d by simp
  have "?r + 1 / 2 < of_int \<lfloor>?r + 1 / 2\<rfloor> + 1"
    using floor_correct [of "?r + 1 / 2"] by simp
  then have "rate_down * (1000 * f / d) < of_int \<lfloor>?r + 1 / 2\<rfloor> + 1 / 2"
    using b(1) by linarith
  then have "rate_down * (1000 * f / d) * d < (of_int \<lfloor>?r + 1 / 2\<rfloor> + 1 / 2) * d"
    using d by (intro mult_strict_right_mono) simp_all
  then show "rate_down * (1000 * f) < (of_int \<lfloor>?r + 1 / 2\<rfloor> + 1 / 2) * d"
    using d by simp
qed

lemma combine_lower:
  fixes m p D d X Y :: rat
  assumes "0 \<le> D" "0 < d" "(m - 1 / 2) * D \<le> X" "(p - 1 / 2) * d \<le> Y"
  shows "(min m p - 1 / 2) * (D + d) \<le> X + Y"
proof -
  have "(min m p - 1 / 2) * D \<le> (m - 1 / 2) * D"
    using assms(1) by (intro mult_right_mono) auto
  moreover have "(min m p - 1 / 2) * d \<le> (p - 1 / 2) * d"
    using assms(2) by (intro mult_right_mono) auto
  ultimately have "(min m p - 1 / 2) * D + (min m p - 1 / 2) * d \<le> X + Y"
    using assms(3,4) by linarith
  then show ?thesis by (simp add: distrib_left)
qed

lemma combine_upper:
  fixes M p D d X Y :: rat
  assumes "0 \<le> D" "0 < d" "X \<le> (M + 1 / 2) * D" "Y < (p + 1 / 2) * d"
  shows "X + Y < (max M p + 1 / 2) * (D + d)"
proof -
  have "(M + 1 / 2) * D \<le> (max M p + 1 / 2) * D"
    using assms(1) by (intro mult_right_mono) auto
  moreover have "(p + 1 / 2) * d \<le> (max M p + 1 / 2) * d"
    using assms(2) by (intro mult_right_mono) auto
  ultimately have "X + Y < (max M p + 1 / 2) * D + (max M p + 1 / 2) * d"
    using assms(3,4) by linarith
  then show ?thesis by (simp add: distrib_left)
qed

lemma is_int_min: "of_int \<lfloor>a\<rfloor> = (a::rat) \<Longrightarrow> of_int \<lfloor>min a (of_int p)\<rfloor> = min a (of_int p)"
  by (simp add: min_def)

lemma is_int_max: "of_int \<lfloor>a\<rfloor> = (a::rat) \<Longrightarrow> of_int \<lfloor>max a (of_int p)\<rfloor> = max a (of_int p)"
  by (simp add: max_def)

text \<open>The arithmetic of one sample, on the quantities of \<open>stats_consistent\<close>.\<close>

lemma sample_keeps_consistent:
  fixes F D f d :: rat
  assumes D: "0 \<le> D" and d: "1000 \<le> d" and f: "0 < f" and F: "0 \<le> F"
    and mx: "case mx of Fin M \<Rightarrow> of_int \<lfloor>M\<rfloor> = M
                 \<and> (if D = 0 then M = 0 \<and> F = 0 else rate_down * (1000 * F) < (M + 1 / 2) * D)
             | _ \<Rightarrow> False"
    and mn: "case mn of Fin m \<Rightarrow> of_int \<lfloor>m\<rfloor> = m \<and> 0 < D \<and> (m - 1 / 2) * D \<le> rate_up * (1000 * F)
             | PInf \<Rightarrow> D = 0 | _ \<Rightarrow> False"
    and le: "D = 0 \<or> mn \<le> mx"
  defines "p \<equiv> \<lfloor>fl (f / fl (d / 1000)) + 1 / 2\<rfloor>"
  shows "case Math_max mx (Fin (of_int p)) of Fin M \<Rightarrow> of_int \<lfloor>M\<rfloor> = M
                 \<and> (if D + d = 0 then M = 0 \<and> F + f = 0
                    else rate_down * (1000 * (F + f)) < (M + 1 / 2) * (D + d))
             | _ \<Rightarrow> False"
    and "case Math_min mn (Fin (of_int p)) of
            Fin m \<Rightarrow> of_int \<lfloor>m\<rfloor> = m \<and> 0 < D + d
              \<and> (m - 1 / 2) * (D + d) \<le> rate_up * (1000 * (F + f))
          | PInf \<Rightarrow> D + d = 0 | _ \<Rightarrow> False"
    and "Math_min mn (Fin (of_int p)) \<le> Math_max mx (Fin (of_int p))"
proof -
  have dpos: "0 < d" using d by simp
  have Dd: "D + d \<noteq> 0" "0 < D + d" using D dpos by simp_all
  note rb = rounded_sample_bounds [OF f dpos, folded p_def]
  from mx obtain M where M: "mx = Fin M" "of_int \<lfloor>M\<rfloor> = M"
    "if D = 0 then M = 0 \<and> F = 0 else rate_down * (1000 * F) < (M + 1 / 2) * D"
    by (cases mx) auto
  have Mle: "rate_down * (1000 * F) \<le> (M + 1 / 2) * D"
    using M(3) by (cases "D = 0") auto
  have "rate_down * (1000 * F) + rate_down * (1000 * f) < (max M (of_int p) + 1 / 2) * (D + d)"
    using combine_upper [OF D dpos Mle rb(2)] .
  then have up: "rate_down * (1000 * (F + f)) < (max M (of_int p) + 1 / 2) * (D + d)"
    by (simp add: distrib_left)
  then show "case Math_max mx (Fin (of_int p)) of Fin M \<Rightarrow> of_int \<lfloor>M\<rfloor> = M
                 \<and> (if D + d = 0 then M = 0 \<and> F + f = 0
                    else rate_down * (1000 * (F + f)) < (M + 1 / 2) * (D + d))
             | _ \<Rightarrow> False"
    using M(1,2) Dd by (simp add: is_int_max)
  show "case Math_min mn (Fin (of_int p)) of
            Fin m \<Rightarrow> of_int \<lfloor>m\<rfloor> = m \<and> 0 < D + d
              \<and> (m - 1 / 2) * (D + d) \<le> rate_up * (1000 * (F + f))
          | PInf \<Rightarrow> D + d = 0 | _ \<Rightarrow> False"
  proof (cases mn)
    case (Fin m)
    with mn have m: "of_int \<lfloor>m\<rfloor> = m" "0 < D" "(m - 1 / 2) * D \<le> rate_up * (1000 * F)"
      by simp_all
    have "(min m (of_int p) - 1 / 2) * (D + d) \<le> rate_up * (1000 * F) + rate_up * (1000 * f)"
      using combine_lower [OF D dpos m(3) rb(1)] .
    then have "(min m (of_int p) - 1 / 2) * (D + d) \<le> rate_up * (1000 * (F + f))"
      by (simp add: distrib_left)
    then show ?thesis using Fin m(1) Dd by (simp add: is_int_min)
  next
    case PInf
    with mn have D0: "D = 0" by simp
    with M(3) have "F = 0" by simp
    then show ?thesis using PInf D0 rb(1) dpos by (simp add: Math_min_def)
  next
    case NInf
    with mn show ?thesis by simp
  next
    case NaN
    with mn show ?thesis by simp
  qed
  show "Math_min mn (Fin (of_int p)) \<le> Math_max mx (Fin (of_int p))"
  proof (cases mn)
    case (Fin m)
    with mn have "0 < D" by simp
    with le Fin M(1) have "m \<le> M" by simp
    then show ?thesis using Fin M(1) by simp
  next
    case PInf
    then show ?thesis using M(1) by (simp add: Math_min_def)
  next
    case NInf
    with mn show ?thesis by simp
  next
    case NaN
    with mn show ?thesis by simp
  qed
qed

lemma sampled_consistent:
  assumes inv: "stats_consistent k s"
    and d: "1000 \<le> now - lastFPSUpdate s"
    and fc: "frameCount s' = 0"
    and tf: "totalFrames s' = totalFrames s + 1"
    and l: "lastFPSUpdate s' = now"
    and st: "testStartTime s' = testStartTime s"
    and mn: "minFPS (testResults s')
       = Math_min (minFPS (testResults s)) (spec_fps (frameCount s + 1) now (lastFPSUpdate s))"
    and mx: "maxFPS (testResults s')
       = Math_max (maxFPS (testResults s)) (spec_fps (frameCount s + 1) now (lastFPSUpdate s))"
    and av: "avgFPS (testResults s') = spec_fps (totalFrames s + 1) now (testStartTime s)"
  shows "stats_consistent (Suc k) s'"
proof -
  define F :: rat where "F = of_nat (totalFrames s) - of_nat (frameCount s)"
  define D :: rat where "D = of_int (lastFPSUpdate s - testStartTime s)"
  define f :: rat where "f = of_nat (frameCount s + 1)"
  define dd :: rat where "dd = of_int (now - lastFPSUpdate s)"
  define p where "p = \<lfloor>fl (f / fl (dd / 1000)) + 1 / 2\<rfloor>"
  define A where "A = \<lfloor>fl ((F + f) / fl ((D + dd) / 1000)) + 1 / 2\<rfloor>"
  have inv': "frameCount s \<le> totalFrames s \<and> ((k = 0) = (D = 0)) \<and> (D = 0 \<or> 1000 \<le> D)
         \<and> (case maxFPS (testResults s) of
               Fin M \<Rightarrow> of_int \<lfloor>M\<rfloor> = M
                 \<and> (if D = 0 then M = 0 \<and> F = 0
                    else rate_down * (1000 * F) < (M + 1 / 2) * D)
             | _ \<Rightarrow> False)
         \<and> (case minFPS (testResults s) of
               Fin m \<Rightarrow> of_int \<lfloor>m\<rfloor> = m \<and> 0 < D \<and> (m - 1 / 2) * D \<le> rate_up * (1000 * F)
             | PInf \<Rightarrow> D = 0
             | _ \<Rightarrow> False)
         \<and> (D = 0 \<or> minFPS (testResults s) \<le> maxFPS (testResults s))
         \<and> (D = 0
             \<or> (case avgFPS (testResults s) of
                   Fin A \<Rightarrow> of_int \<lfloor>A\<rfloor> = A
                     \<and> rate_down * (1000 * F) < (A + 1 / 2) * D
                     \<and> (A - 1 / 2) * D \<le> rate_up * (1000 * F)
                 | _ \<Rightarrow> False))"
    using inv unfolding stats_consistent_def Let_def F_def D_def .
  from inv' have le: "frameCount s \<le> totalFrames s" by blast
  from inv' have D0: "0 \<le> D" by auto
  from inv' have imx: "case maxFPS (testResults s) of Fin M \<Rightarrow> of_int \<lfloor>M\<rfloor> = M
                 \<and> (if D = 0 then M = 0 \<and> F = 0 else rate_down * (1000 * F) < (M + 1 / 2) * D)
             | _ \<Rightarrow> False" by blast
  from inv' have imn: "case minFPS (testResults s) of
                 Fin m \<Rightarrow> of_int \<lfloor>m\<rfloor> = m \<and> 0 < D \<and> (m - 1 / 2) * D \<le> rate_up * (1000 * F)
               | PInf \<Rightarrow> D = 0 | _ \<Rightarrow> False" by blast
  from inv' have ile: "D = 0 \<or> minFPS (testResults s) \<le> maxFPS (testResults s)" by blast
  have d1000: "1000 \<le> dd" using d by (simp add: dd_def)
  have f0: "0 < f" by (simp add: f_def)
  have F0: "0 \<le> F" using le by (simp add: F_def)
  have fps: "spec_fps (frameCount s + 1) now (lastFPSUpdate s) = Fin (of_int p)"
    using spec_fps_value [OF d] by (simp add: p_def f_def dd_def)
  have F': "(of_nat (totalFrames s') - of_nat (frameCount s') :: rat) = F + f"
    by (simp add: fc tf F_def f_def)
  have D': "(of_int (lastFPSUpdate s' - testStartTime s') :: rat) = D + dd"
    by (simp add: l st D_def dd_def)
  have Dpos: "0 < D + dd" "1000 \<le> D + dd" using D0 d1000 by simp_all
  have d': "1000 \<le> now - testStartTime s"
  proof -
    have "(of_int (now - testStartTime s) :: rat) = D + dd" by (simp add: D_def dd_def)
    then have "(1000::rat) \<le> of_int (now - testStartTime s)" using Dpos(2) by simp
    then show ?thesis by linarith
  qed
  have avg: "avgFPS (testResults s') = Fin (of_int A)"
  proof -
    have "(of_nat (totalFrames s + 1) :: rat) = F + f" by (simp add: F_def f_def)
    moreover have "(of_int (now - testStartTime s) :: rat) = D + dd" by (simp add: D_def dd_def)
    ultimately show ?thesis using spec_fps_value [OF d', of "totalFrames s + 1"]
      by (simp add: av A_def)
  qed
  have Ff: "0 < F + f" using F0 f0 by simp
  note ab = rounded_sample_bounds [OF Ff Dpos(1), folded A_def]
  note step = sample_keeps_consistent [OF D0 d1000 f0 F0 imx imn ile, folded p_def]
  have c1: "frameCount s' \<le> totalFrames s'" by (simp add: fc)
  have "frameCount s' \<le> totalFrames s' \<and> ((Suc k = 0) = (D + dd = 0))
         \<and> (D + dd = 0 \<or> 1000 \<le> D + dd)
         \<and> (case Math_max (maxFPS (testResults s)) (Fin (of_int p)) of
               Fin M \<Rightarrow> of_int \<lfloor>M\<rfloor> = M
                 \<and> (if D + dd = 0 then M = 0 \<and> F + f = 0
                    else rate_down * (1000 * (F + f)) < (M + 1 / 2) * (D + dd))
             | _ \<Rightarrow> False)
         \<and> (case Math_min (minFPS (testResults s)) (Fin (of_int p)) of
               Fin m \<Rightarrow> of_int \<lfloor>m\<rfloor> = m \<and> 0 < D + dd
                 \<and> (m - 1 / 2) * (D + dd) \<le> rate_up * (1000 * (F + f))
             | PInf \<Rightarrow> D + dd = 0
             | _ \<Rightarrow> False)
         \<and> (D + dd = 0 \<or> Math_min (minFPS (testResults s)) (Fin (of_int p))
                            \<le> Math_max (maxFPS (testResults s)) (Fin (of_int p)))
         \<and> (D + dd = 0
             \<or> (case Fin (of_int A) of
                   Fin A \<Rightarrow> of_int \<lfloor>A\<rfloor> = A
                     \<and> rate_down * (1000 * (F + f)) < (A + 1 / 2) * (D + dd)
                     \<and> (A - 1 / 2) * (D + dd) \<le> rate_up * (1000 * (F + f))
                 | _ \<Rightarrow> False))"
    using c1 Dpos step ab by (intro conjI) simp_all
  then show ?thesis
    unfolding stats_consistent_def Let_def F' D' mn mx fps avg .
qed

lemma unsampled_consistent:
  assumes "stats_consistent k s"
    and "frameCount s' = frameCount s + 1"
    and "totalFrames s' = totalFrames s + 1"
    and "lastFPSUpdate s' = lastFPSUpdate s"
    and "testStartTime s' = testStartTime s"
    and "testResults s' = testResults s"
  shows "stats_consistent k s'"
  using assms by (simp add: stats_consistent_def Let_def)

lemma update_fps_consistent:
  assumes "stats_consistent k s"
  shows "stats_consistent (k + (samples_emitted (update_fps env s) - samples_emitted s))
           (update_fps env s)"
proof (cases "1000 \<le> clock_now env - lastFPSUpdate s")
  case True
  have "stats_consistent (Suc k) (update_fps env s)"
    using assms True
    by (rule sampled_consistent)
      (simp_all add: update_fps_window update_fps_results True)
  moreover have "samples_emitted (update_fps env s) - samples_emitted s = 1"
    using True by (simp add: samples_emitted_def update_fps_window)
  ultimately show ?thesis by simp
next
  case False
  have "stats_consistent k (update_fps env s)"
    using assms by (rule unsampled_consistent) (simp_all add: update_fps_def Let_def False)
  moreover have "samples_emitted (update_fps env s) - samples_emitted s = 0"
    using False by (simp add: samples_emitted_def update_fps_window)
  ultimately show ?thesis by simp
qed

lemma update_fallback_fps_consistent:
  assumes "stats_consistent k s"
  shows "stats_consistent (k + (samples_emitted (update_fallback_fps env s) - samples_emitted s))
           (update_fallback_fps env s)"
proof (cases "1000 \<le> clock_now env - lastFPSUpdate s")
  case True
  have "stats_consistent (Suc k) (update_fallback_fps env s)"
    using assms True
    by (rule sampled_consistent)
      (simp_all add: update_fallback_fps_window update_fallback_fps_results True)
  moreover have "samples_emitted (update_fallback_fps env s) - samples_emitted s = 1"
    using True by (simp add: samples_emitted_def update_fallback_fps_window)
  ultimately show ?thesis by simp
next
  case False
  have "stats_consistent k (update_fallback_fps env s)"
    using assms by (rule unsampled_consistent) (simp_all add: update_fallback_fps_def Let_def False)
  moreover have "samples_emitted (update_fallback_fps env s) - samples_emitted s = 0"
    using False by (simp add: samples_emitted_def update_fallback_fps_window)
  ultimately show ?thesis by simp
qed

lemma steps_consistent:
  assumes "same_stats s s1"
    and "s2 = s1 \<or> s2 = update_fps env s1 \<or> s2 = update_fallback_fps env s1"
    and "same_stats s2 s'"
    and "stats_consistent k s"
  shows "stats_consistent (k + (samples_emitted s' - samples_emitted s)) s'"
proof -
  have a: "stats_consistent k s1" using assms(1,4) by (simp add: same_stats_consistent)
  have e: "samples_emitted s1 = samples_emitted s" "samples_emitted s' = samples_emitted s2"
    using assms(1,3) by (simp_all add: same_stats_samples)
  have "stats_consistent (k + (samples_emitted s2 - samples_emitted s1)) s2"
    using assms(2) a update_fps_consistent [OF a, of env] update_fallback_fps_consistent [OF a, of env]
    by auto
  then show ?thesis using assms(3) e by (simp add: same_stats_consistent)
qed

lemma run_callback_consistent:
  assumes "run_callback env s = Inr s'" and "stats_consistent k s"
  shows "stats_consistent (k + (samples_emitted s' - samples_emitted s)) s'"
  using run_callback_steps [OF assms(1)] steps_consistent assms(2) by blast

lemma animate_consistent:
  assumes "animate env s = Inr s'" and "stats_consistent k s"
  shows "stats_consistent (k + (samples_emitted s' - samples_emitted s)) s'
     \<and> samples_emitted s \<le> samples_emitted s'"
proof -
  from animate_steps [OF assms(1)] obtain s1 s2 where
    st: "same_stats s s1" "s2 = s1 \<or> s2 = update_fps env s1" "same_stats s2 s'"
    by blast
  then have st2: "s2 = s1 \<or> s2 = update_fps env s1 \<or> s2 = update_fallback_fps env s1" by blast
  have "samples_emitted s \<le> samples_emitted s'"
    using step_rate [OF st2] st(1,3) by (simp add: same_stats_samples)
  then show ?thesis using steps_consistent [OF st(1) st2 st(3) assms(2)] by simp
qed

lemma run_callbacks_consistent:
  assumes "run_callbacks envs s = Inr s'" and "stats_consistent k s"
  shows "stats_consistent (k + (samples_emitted s' - samples_emitted s)) s'"
  using assms
proof (induction envs arbitrary: s k)
  case Nil
  then show ?case by simp
next
  case (Cons env envs)
  from Cons.prems obtain s1 where s1: "run_callback env s = Inr s1" "run_callbacks envs s1 = Inr s'"
    by (auto split: sum.splits)
  have m1: "samples_emitted s \<le> samples_emitted s1" using run_callback_rate [OF s1(1)] by simp
  have m2: "samples_emitted s1 \<le> samples_emitted s'" using run_callbacks_rate [OF s1(2)] by simp
  from Cons.IH [OF s1(2) run_callback_consistent [OF s1(1) Cons.prems(2)]]
  have "stats_consistent (k + (samples_emitted s1 - samples_emitted s)
          + (samples_emitted s' - samples_emitted s1)) s'" .
  moreover have "k + (samples_emitted s1 - samples_emitted s) + (samples_emitted s' - samples_emitted s1)
      = k + (samples_emitted s' - samples_emitted s)"
    using m1 m2 by simp
  ultimately show ?case by simp
qed

lemma consistent_within_one:
  assumes "stats_consistent k s" and "0 < k" and "totalFrames s \<le> 2 ^ 50"
  shows "\<exists>m a M. minFPS (testResults s) = Fin m \<and> avgFPS (testResults s) = Fin a
     \<and> maxFPS (testResults s) = Fin M \<and> m \<le> M \<and> m - 1 \<le> a \<and> a \<le> M + 1"
proof -
  define F :: rat where "F = of_nat (totalFrames s) - of_nat (frameCount s)"
  define D :: rat where "D = of_int (lastFPSUpdate s - testStartTime s)"
  have inv': "frameCount s \<le> totalFrames s \<and> ((k = 0) = (D = 0)) \<and> (D = 0 \<or> 1000 \<le> D)
         \<and> (case maxFPS (testResults s) of
               Fin M \<Rightarrow> of_int \<lfloor>M\<rfloor> = M
                 \<and> (if D = 0 then M = 0 \<and> F = 0
                    else rate_down * (1000 * F) < (M + 1 / 2) * D)
             | _ \<Rightarrow> False)
         \<and> (case minFPS (testResults s) of
               Fin m \<Rightarrow> of_int \<lfloor>m\<rfloor> = m \<and> 0 < D \<and> (m - 1 / 2) * D \<le> rate_up * (1000 * F)
             | PInf \<Rightarrow> D = 0
             | _ \<Rightarrow> False)
         \<and> (D = 0 \<or> minFPS (testResults s) \<le> maxFPS (testResults s))
         \<and> (D = 0
             \<or> (case avgFPS (testResults s) of
                   Fin A \<Rightarrow> of_int \<lfloor>A\<rfloor> = A
                     \<and> rate_down * (1000 * F) < (A + 1 / 2) * D
                     \<and> (A - 1 / 2) * D \<le> rate_up * (1000 * F)
                 | _ \<Rightarrow> False))"
    using assms(1) unfolding stats_consistent_def Let_def F_def D_def .
  from inv' assms(2) have D: "1000 \<le> D" "0 < D" by auto
  from inv' D obtain M where M: "maxFPS (testResults s) = Fin M" "of_int \<lfloor>M\<rfloor> = M"
    "rate_down * (1000 * F) < (M + 1 / 2) * D"
    by (auto split: jsnum.splits)
  from inv' D obtain m where m: "minFPS (testResults s) = Fin m" "of_int \<lfloor>m\<rfloor> = m"
    "(m - 1 / 2) * D \<le> rate_up * (1000 * F)"
    by (auto split: jsnum.splits)
  from inv' D obtain A where A: "avgFPS (testResults s) = Fin A" "of_int \<lfloor>A\<rfloor> = A"
    "rate_down * (1000 * F) < (A + 1 / 2) * D" "(A - 1 / 2) * D \<le> rate_up * (1000 * F)"
    by (auto split: jsnum.splits)
  from inv' D m(1) M(1) have mM: "m \<le> M" by auto
  obtain mi where mi: "m = of_int mi" using m(2) by metis
  obtain ai where ai: "A = of_int ai" using A(2) by metis
  obtain Mi where Mi: "M = of_int Mi" using M(2) by metis
  have F0: "0 \<le> F" using inv' by (simp add: F_def)
  have "F \<le> of_nat (totalFrames s)" by (simp add: F_def)
  also have "\<dots> \<le> 2 ^ 50"
    using assms(3) by (metis of_nat_le_iff of_nat_numeral of_nat_power)
  finally have F50: "F \<le> 2 ^ 50" .
  have gap0: "0 \<le> rate_up - rate_down"
    by (simp add: rate_up_def rate_down_def unit_roundoff_def)
  have "(rate_up - rate_down) * F \<le> (rate_up - rate_down) * 2 ^ 50"
    using F50 gap0 by (intro mult_left_mono) simp_all
  then have "(rate_up - rate_down) * F \<le> 1" using rate_factors(3) by linarith
  then have "(rate_up - rate_down) * F * 1000 \<le> 1 * 1000"
    by (intro mult_right_mono) simp_all
  then have gap: "rate_up * (1000 * F) \<le> rate_down * (1000 * F) + D"
    using D(1) by (simp add: algebra_simps)
  have "(m - 1 / 2) * D < (A + 1 / 2) * D + D" using m(3) A(3) gap by linarith
  then have "(m - 1 / 2) * D < (A + 3 / 2) * D" by (simp add: algebra_simps)
  then have "m - 1 / 2 < A + 3 / 2" using D(2) by (simp add: mult_less_cancel_right)
  then have "of_int mi < (of_int (ai + 2) :: rat)" by (simp add: mi ai)
  then have "mi < ai + 2" by (simp only: of_int_less_iff)
  then have "mi - 1 \<le> ai" by simp
  then have "(of_int (mi - 1) :: rat) \<le> of_int ai" by (simp only: of_int_le_iff)
  then have lo: "m - 1 \<le> A" by (simp add: mi ai)
  have "(A - 1 / 2) * D < (M + 1 / 2) * D + D" using A(4) M(3) gap by linarith
  then have "(A - 1 / 2) * D < (M + 3 / 2) * D" by (simp add: algebra_simps)
  then have "A - 1 / 2 < M + 3 / 2" using D(2) by (simp add: mult_less_cancel_right)
  then have "of_int ai < (of_int (Mi + 2) :: rat)" by (simp add: Mi ai)
  then have "ai < Mi + 2" by (simp only: of_int_less_iff)
  then have "ai \<le> Mi + 1" by simp
  then have "(of_int ai :: rat) \<le> of_int (Mi + 1)" by (simp only: of_int_le_iff)
  then have hi: "A \<le> M + 1" by (simp add: Mi ai)
  show ?thesis using m(1) A(1) M(1) mM lo hi by blast
qed

lemma update_fps_frame:
  "isTestRunning (update_fps env s) = isTestRunning s"
  "rafQueue (update_fps env s) = rafQueue s"
  "localStorage (update_fps env s) = localStorage s"
  by (simp_all add: update_fps_def Let_def)

lemma start_consistent:
  assumes "(\<not> isTestRunning s0 \<and> startGPUTest lvl t t env0 s0 = Inr s1)
           \<or> s1 = startFallbackTest lvl t t s0"
  shows "stats_consistent (samples_emitted s1 - samples_emitted s0) s1
     \<and> samples_emitted s0 \<le> samples_emitted s1"
  using assms
proof
  assume a: "\<not> isTestRunning s0 \<and> startGPUTest lvl t t env0 s0 = Inr s1"
  define init where "init = s0\<lparr>currentLevel := lvl, isTestRunning := True, testStartTime := t,
                frameCount := 0, totalFrames := 0, lastFPSUpdate := t,
                simulatedTemp := Fin 65, avgFPS_global := Fin 0,
                testResults := initial_testResults\<rparr>"
  have i: "stats_consistent 0 init"
    by (simp add: stats_consistent_def init_def initial_testResults_def)
  have e: "samples_emitted init = samples_emitted s0"
    by (simp add: samples_emitted_def init_def)
  from a have "animate env0 init = Inr s1"
    by (auto simp: startGPUTest_def init_def)
  from animate_consistent [OF this i] e show ?thesis by simp
next
  assume a: "s1 = startFallbackTest lvl t t s0"
  define init where "init = s0\<lparr>currentLevel := lvl, isTestRunning := True, testStartTime := t,
                 frameCount := 0, totalFrames := 0, lastFPSUpdate := t,
                 testResults := initial_testResults\<rparr>"
  have i: "stats_consistent 0 init"
    by (simp add: stats_consistent_def init_def initial_testResults_def)
  have e: "samples_emitted init = samples_emitted s0"
    by (simp add: samples_emitted_def init_def)
  have "s1 = schedule_updateFallbackTest init"
    using a by (simp add: startFallbackTest_def init_def Let_def)
  then have ss: "same_stats init s1"
    by (simp add: same_stats_schedule_updateFallbackTest)
  then show ?thesis using i e
    by (simp add: same_stats_consistent same_stats_samples)
qed

text \<open>
  C6 (amended). When a test start reads the same clock value into \<^verbatim>\<open>testStartTime\<close> and
  \<^verbatim>\<open>lastFPSUpdate\<close> (3D or 2D start), then after any sequence of frame callbacks in which
  at least one sample was emitted, and with at most \<open>2\<^sup>5\<^sup>0\<close> frames counted, minFPS,
  avgFPS and maxFPS are numbers with minFPS \<open>\<le>\<close> maxFPS, minFPS - 1 \<open>\<le>\<close> avgFPS and
  avgFPS \<open>\<le>\<close> maxFPS + 1.
\<close>

theorem min_avg_max_within_one:
  assumes start: "(\<not> isTestRunning s0 \<and> startGPUTest lvl t t env0 s0 = Inr s1)
                  \<or> s1 = startFallbackTest lvl t t s0"
    and run: "run_callbacks envs s1 = Inr s2"
    and sampled: "samples_emitted s0 < samples_emitted s2"
    and frames: "totalFrames s2 \<le> 2 ^ 50"
  shows "\<exists>m a M. minFPS (testResults s2) = Fin m \<and> avgFPS (testResults s2) = Fin a
     \<and> maxFPS (testResults s2) = Fin M \<and> m \<le> M \<and> m - 1 \<le> a \<and> a \<le> M + 1"
proof -
  from start_consistent [OF start]
  have c1: "stats_consistent (samples_emitted s1 - samples_emitted s0) s1"
    and m1: "samples_emitted s0 \<le> samples_emitted s1" by simp_all
  have m2: "samples_emitted s1 \<le> samples_emitted s2"
    using run_callbacks_rate [OF run] by simp
  from run_callbacks_consistent [OF run c1]
  have "stats_consistent (samples_emitted s1 - samples_emitted s0
          + (samples_emitted s2 - samples_emitted s1)) s2" .
  moreover have "samples_emitted s1 - samples_emitted s0 + (samples_emitted s2 - samples_emitted s1)
      = samples_emitted s2 - samples_emitted s0"
    using m1 m2 by simp
  ultimately have "stats_consistent (samples_emitted s2 - samples_emitted s0) s2" by simp
  moreover have "0 < samples_emitted s2 - samples_emitted s0" using sampled by simp
  ultimately show ?thesis using frames by (rule consistent_within_one)
qed

theorem min_avg_max_within_one_witness:
  "\<not> isTestRunning demo_page
   \<and> startGPUTest Medium 0 0 (demo_env 0 0) demo_page = Inr demo_started
   \<and> run_callbacks [demo_env 1000 1000] demo_started = Inr demo_sampled
   \<and> samples_emitted demo_page < samples_emitted demo_sampled
   \<and> totalFrames demo_sampled \<le> 2 ^ 50
   \<and> (\<exists>m a M. minFPS (testResults demo_sampled) = Fin m \<and> avgFPS (testResults demo_sampled) = Fin a
        \<and> maxFPS (testResults demo_sampled) = Fin M \<and> m \<le> M \<and> m - 1 \<le> a \<and> a \<le> M + 1)"
proof -
  have h0: "\<not> isTestRunning demo_page"
    by (simp add: demo_page_def initial_state_def)
  have h1: "startGPUTest Medium 0 0 (demo_env 0 0) demo_page = Inr demo_started"
    using h0 by (simp add: startGPUTest_def demo_started_def animate_running demo_env_def)
  have q: "rafQueue demo_started = [(1, Animate)]"
    by (simp add: demo_started_def update_fps_frame schedule_animate_eq demo_page_def initial_state_def)
  have r: "isTestRunning (demo_started\<lparr>rafQueue := []\<rparr>)"
    by (simp add: demo_started_def update_fps_frame schedule_animate_eq)
  have t: "clock_elapsed (demo_env 1000 1000) - testStartTime (demo_started\<lparr>rafQueue := []\<rparr>) < 30000"
    by (simp add: demo_started_def update_fps_window schedule_animate_eq demo_env_def)
  have h2: "run_callbacks [demo_env 1000 1000] demo_started = Inr demo_sampled"
    using animate_running [OF r t] q by (simp add: run_callback_def demo_sampled_def)
  have l: "lastFPSUpdate (schedule_animate (demo_started\<lparr>rafQueue := []\<rparr>)) = 0"
    by (simp add: demo_started_def update_fps_window schedule_animate_eq demo_env_def)
  have e: "fps_display (schedule_animate (demo_started\<lparr>rafQueue := []\<rparr>)) = []"
    "fallback_fps (schedule_animate (demo_started\<lparr>rafQueue := []\<rparr>)) = []"
    "totalFrames (schedule_animate (demo_started\<lparr>rafQueue := []\<rparr>)) = 1"
    by (simp_all add: demo_started_def update_fps_window schedule_animate_eq demo_env_def
        demo_page_def initial_state_def)
  have h3: "samples_emitted demo_page < samples_emitted demo_sampled"
    by (simp add: samples_emitted_def demo_sampled_def update_fps_window l e demo_env_def
        demo_page_def initial_state_def)
  have h4: "totalFrames demo_sampled \<le> 2 ^ 50"
    by (simp add: demo_sampled_def update_fps_window e)
  from min_avg_max_within_one [of demo_page Medium 0 "demo_env 0 0" demo_started
      "[demo_env 1000 1000]" demo_sampled] h0 h1 h2 h3 h4
  show ?thesis by blast
qed

lemma spec_fps_examples:
  "spec_fps (Suc (Suc 0)) 4001 1 = Fin 1" "spec_fps (Suc (Suc 0)) 4001 0 = Fin 0"
  "spec_fps (Suc (Suc 0)) 5000 0 = Fin 0"
  by code_simp+

theorem late_window_start_avg_below_min:
  "map_sum id samples_emitted
     (case_sum Inl (run_callbacks [demo_env 4001 4001])
        (startGPUTest Medium 0 1 (demo_env 1 1) demo_page)) = Inr 1
   \<and> map_sum id (minFPS \<circ> testResults)
     (case_sum Inl (run_callbacks [demo_env 4001 4001])
        (startGPUTest Medium 0 1 (demo_env 1 1) demo_page)) = Inr (Fin 1)
   \<and> map_sum id (avgFPS \<circ> testResults)
     (case_sum Inl (run_callbacks [demo_env 4001 4001])
        (startGPUTest Medium 0 1 (demo_env 1 1) demo_page)) = Inr (Fin 0)
   \<and> \<not> (Fin 1 \<le> Fin 0)"
proof -
  define init where "init = demo_page\<lparr>currentLevel := Medium, isTestRunning := True,
      testStartTime := 0, frameCount := 0, totalFrames := 0, lastFPSUpdate := 1,
      simulatedTemp := Fin 65, avgFPS_global := Fin 0, testResults := initial_testResults\<rparr>"
  define s1 where "s1 = update_fps (demo_env 1 1) (schedule_animate init)"
  define s1' where "s1' = schedule_animate (s1\<lparr>rafQueue := []\<rparr>)"
  define s2 where "s2 = update_fps (demo_env 4001 4001) s1'"
  have h0: "\<not> isTestRunning demo_page"
    by (simp add: demo_page_def initial_state_def)
  have h1: "startGPUTest Medium 0 1 (demo_env 1 1) demo_page = Inr s1"
    using h0 by (simp add: startGPUTest_def s1_def init_def animate_running demo_env_def)
  have q: "rafQueue s1 = [(1, Animate)]"
    by (simp add: s1_def init_def update_fps_frame schedule_animate_eq demo_page_def initial_state_def)
  have r: "isTestRunning (s1\<lparr>rafQueue := []\<rparr>)"
    by (simp add: s1_def init_def update_fps_frame schedule_animate_eq)
  have t: "clock_elapsed (demo_env 4001 4001) - testStartTime (s1\<lparr>rafQueue := []\<rparr>) < 30000"
    by (simp add: s1_def init_def update_fps_window schedule_animate_eq demo_env_def)
  have h2: "run_callbacks [demo_env 4001 4001] s1 = Inr s2"
    using animate_running [OF r t] q by (simp add: run_callback_def s2_def s1'_def)
  have f1: "frameCount s1' = 1" "totalFrames s1' = 1" "lastFPSUpdate s1' = 1" "testStartTime s1' = 0"
    "testResults s1' = initial_testResults" "fps_display s1' = []" "fallback_fps s1' = []"
    by (simp_all add: s1'_def s1_def init_def update_fps_def Let_def schedule_animate_eq demo_env_def
        demo_page_def initial_state_def)
  have w: "1000 \<le> clock_now (demo_env 4001 4001) - lastFPSUpdate s1'"
    by (simp add: f1 demo_env_def)
  have c: "clock_now (demo_env 4001 4001) = 4001" by (simp add: demo_env_def)
  have f2: "samples_emitted s2 = 1" "minFPS (testResults s2) = Fin 1" "avgFPS (testResults s2) = Fin 0"
    using update_fps_results [OF w]
    by (simp_all add: s2_def samples_emitted_def update_fps_window f1 c spec_fps_examples
        initial_testResults_def Math_min_def)
  have "case_sum Inl (run_callbacks [demo_env 4001 4001])
          (startGPUTest Medium 0 1 (demo_env 1 1) demo_page) = Inr s2"
    by (simp only: h1 sum.case h2)
  then show ?thesis by (simp add: f2)
qed

lemma demo_started_fields:
  "isTestRunning demo_started" "animationId demo_started = Some 1"
  "rafQueue demo_started = [(1, Animate)]"
  "testResults demo_started = initial_testResults" "localStorage demo_started = Map.empty"
  "currentLevel demo_started = Medium" "isMobile demo_started = False"
  "frameCount demo_started = 1" "totalFrames demo_started = 1"
  "lastFPSUpdate demo_started = 0" "testStartTime demo_started = 0"
  "fps_display demo_started = []" "fallback_fps demo_started = []"
  "rafNext demo_started = 2"
  by (simp_all add: demo_started_def update_fps_def Let_def schedule_animate_eq demo_env_def
      demo_page_def initial_state_def)

lemma run_callbacks_append:
  "run_callbacks (xs @ ys) s
     = (case run_callbacks xs s of Inl e \<Rightarrow> Inl e | Inr s' \<Rightarrow> run_callbacks ys s')"
  by (induction xs arbitrary: s) (auto split: sum.splits)

lemma update_fps_quiet:
  assumes "clock_now env - lastFPSUpdate s < 1000"
  shows "update_fps env s = s\<lparr>frameCount := frameCount s + 1, totalFrames := totalFrames s + 1\<rparr>"
  using assms by (simp add: update_fps_def Let_def)

lemma quiet_frame_3d:
  assumes "isTestRunning s" and "rafQueue s = [(q, Animate)]"
    and "t - testStartTime s < 30000" and "t - lastFPSUpdate s < 1000"
  shows "\<exists>s' q'. run_callback (demo_env t t) s = Inr s' \<and> isTestRunning s'
     \<and> rafQueue s' = [(q', Animate)]
     \<and> frameCount s' = frameCount s + 1 \<and> totalFrames s' = totalFrames s + 1
     \<and> lastFPSUpdate s' = lastFPSUpdate s \<and> testStartTime s' = testStartTime s
     \<and> testResults s' = testResults s
     \<and> fps_display s' = fps_display s \<and> fallback_fps s' = fallback_fps s"
proof -
  define s0 where "s0 = schedule_animate (s\<lparr>rafQueue := []\<rparr>)"
  have r: "isTestRunning (s\<lparr>rafQueue := []\<rparr>)" using assms(1) by simp
  have e: "clock_elapsed (demo_env t t) - testStartTime (s\<lparr>rafQueue := []\<rparr>) < 30000"
    using assms(3) by (simp add: demo_env_def)
  have f0: "frameCount s0 = frameCount s" "totalFrames s0 = totalFrames s"
    "lastFPSUpdate s0 = lastFPSUpdate s" "testStartTime s0 = testStartTime s"
    "testResults s0 = testResults s" "fps_display s0 = fps_display s"
    "fallback_fps s0 = fallback_fps s" "isTestRunning s0"
    "rafQueue s0 = [(rafNext s, Animate)]"
    using assms(1) by (simp_all add: s0_def schedule_animate_eq)
  have w: "clock_now (demo_env t t) - lastFPSUpdate s0 < 1000"
    using assms(4) by (simp add: demo_env_def f0)
  have "run_callback (demo_env t t) s = Inr (update_fps (demo_env t t) s0)"
    using animate_running [OF r e] assms(2) by (simp add: run_callback_def s0_def)
  then show ?thesis
    by (simp add: update_fps_quiet [OF w] f0)
qed

lemma quiet_frames_3d:
  assumes "isTestRunning s" and "rafQueue s = [(q, Animate)]"
    and "\<forall>t\<in>set ts. t - testStartTime s < 30000 \<and> t - lastFPSUpdate s < 1000"
  shows "\<exists>s' q'. run_callbacks (map (\<lambda>t. demo_env t t) ts) s = Inr s' \<and> isTestRunning s'
     \<and> rafQueue s' = [(q', Animate)]
     \<and> frameCount s' = frameCount s + length ts \<and> totalFrames s' = totalFrames s + length ts
     \<and> lastFPSUpdate s' = lastFPSUpdate s \<and> testStartTime s' = testStartTime s
     \<and> testResults s' = testResults s
     \<and> fps_display s' = fps_display s \<and> fallback_fps s' = fallback_fps s"
  using assms
proof (induction ts arbitrary: s q)
  case Nil
  then show ?case by simp
next
  case (Cons t ts)
  from quiet_frame_3d [OF Cons.prems(1,2), of t] Cons.prems(3)
  obtain s1 q1 where s1: "run_callback (demo_env t t) s = Inr s1" "isTestRunning s1"
    "rafQueue s1 = [(q1, Animate)]"
    "frameCount s1 = frameCount s + 1" "totalFrames s1 = totalFrames s + 1"
    "lastFPSUpdate s1 = lastFPSUpdate s" "testStartTime s1 = testStartTime s"
    "testResults s1 = testResults s"
    "fps_display s1 = fps_display s" "fallback_fps s1 = fallback_fps s"
    by auto
  have "\<forall>t\<in>set ts. t - testStartTime s1 < 30000 \<and> t - lastFPSUpdate s1 < 1000"
    using Cons.prems(3) s1(6,7) by simp
  from Cons.IH [OF s1(2,3) this] s1 show ?case by auto
qed

lemma sampling_frame_3d:
  assumes "isTestRunning s" and "rafQueue s = [(q, Animate)]"
    and "t - testStartTime s < 30000" and "1000 \<le> t - lastFPSUpdate s"
  shows "\<exists>s' q'. run_callback (demo_env t t) s = Inr s' \<and> isTestRunning s'
     \<and> rafQueue s' = [(q', Animate)]
     \<and> frameCount s' = 0 \<and> totalFrames s' = totalFrames s + 1
     \<and> lastFPSUpdate s' = t \<and> testStartTime s' = testStartTime s
     \<and> minFPS (testResults s')
         = Math_min (minFPS (testResults s)) (spec_fps (frameCount s + 1) t (lastFPSUpdate s))
     \<and> maxFPS (testResults s')
         = Math_max (maxFPS (testResults s)) (spec_fps (frameCount s + 1) t (lastFPSUpdate s))
     \<and> avgFPS (testResults s') = spec_fps (totalFrames s + 1) t (testStartTime s)
     \<and> fps_display s' = spec_fps (frameCount s + 1) t (lastFPSUpdate s) # fps_display s
     \<and> fallback_fps s' = fallback_fps s"
proof -
  define s0 where "s0 = schedule_animate (s\<lparr>rafQueue := []\<rparr>)"
  have r: "isTestRunning (s\<lparr>rafQueue := []\<rparr>)" using assms(1) by simp
  have e: "clock_elapsed (demo_env t t) - testStartTime (s\<lparr>rafQueue := []\<rparr>) < 30000"
    using assms(3) by (simp add: demo_env_def)
  have c: "clock_now (demo_env t t) = t" by (simp add: demo_env_def)
  have f0: "frameCount s0 = frameCount s" "totalFrames s0 = totalFrames s"
    "lastFPSUpdate s0 = lastFPSUpdate s" "testStartTime s0 = testStartTime s"
    "testResults s0 = testResults s" "fps_display s0 = fps_display s"
    "fallback_fps s0 = fallback_fps s" "isTestRunning s0"
    "rafQueue s0 = [(rafNext s, Animate)]"
    using assms(1) by (simp_all add: s0_def schedule_animate_eq)
  have w: "1000 \<le> clock_now (demo_env t t) - lastFPSUpdate s0"
    using assms(4) by (simp add: c f0)
  have "run_callback (demo_env t t) s = Inr (update_fps (demo_env t t) s0)"
    using animate_running [OF r e] assms(2) by (simp add: run_callback_def s0_def)
  then show ?thesis
    using update_fps_results [OF w] w
    by (simp add: update_fps_window update_fps_frame f0 c)
qed

text \<open>
  The quotients \<^verbatim>\<open>13 / 1.04\<close>, \<^verbatim>\<open>15 / 1.2\<close> and \<^verbatim>\<open>28 / 2.24\<close> are all 12.5 over the
  rationals. In the arithmetic of the program the first two are 12.5 and round to 13, the
  third is just below and rounds to 12; so do 13 frames in 1040 ms against 247 frames in
  19760 ms (a frame every 80 ms), and 14 frames in 1120 ms give 12.
\<close>

lemma tie_examples:
  "spec_fps 13 1040 0 = Fin 13" "spec_fps 15 2240 1040 = Fin 13" "spec_fps 28 2240 0 = Fin 12"
  "spec_fps 13 19760 18720 = Fin 13" "spec_fps 247 19760 0 = Fin 12"
  "spec_fps 14 1120 0 = Fin 12"
  by code_simp+

text \<open>
  With equal clock reads the rounding of the quotients alone can put avgFPS below minFPS:
  a 3D run started at time 0 with 13 frames in its first 1040 ms and 15 frames in the next
  1200 ms emits the sample 13 twice, and its avgFPS is 12.
\<close>

lemma tie_run_avg_below_min:
  "startGPUTest Medium 0 0 (demo_env 0 0) demo_page = Inr demo_started
   \<and> map_sum id (\<lambda>s. (samples_emitted s, minFPS (testResults s), avgFPS (testResults s),
                        maxFPS (testResults s)))
       (run_callbacks
          (map (\<lambda>t. demo_env t t)
             ([90, 180, 270, 360, 450, 540, 630, 720, 810, 900, 990] @ [1040]
              @ [1100, 1160, 1220, 1280, 1340, 1400, 1460, 1520, 1580, 1640, 1700, 1760, 1820, 1880]
              @ [2240]))
          demo_started)
     = Inr (2, Fin 13, Fin 12, Fin 13)
   \<and> \<not> (Fin 13 \<le> Fin 12)"
proof -
  define ts1 :: "int list" where "ts1 = [90, 180, 270, 360, 450, 540, 630, 720, 810, 900, 990]"
  define ts2 :: "int list" where
    "ts2 = [1100, 1160, 1220, 1280, 1340, 1400, 1460, 1520, 1580, 1640, 1700, 1760, 1820, 1880]"
  have h0: "\<not> isTestRunning demo_page"
    by (simp add: demo_page_def initial_state_def)
  have h1: "startGPUTest Medium 0 0 (demo_env 0 0) demo_page = Inr demo_started"
    using h0 by (simp add: startGPUTest_def demo_started_def animate_running demo_env_def)
  have "\<forall>t\<in>set ts1. t - testStartTime demo_started < 30000 \<and> t - lastFPSUpdate demo_started < 1000"
    by (simp add: ts1_def demo_started_fields)
  from quiet_frames_3d [OF demo_started_fields(1) demo_started_fields(3) this]
  obtain s1 q1 where s1: "run_callbacks (map (\<lambda>t. demo_env t t) ts1) demo_started = Inr s1"
    "isTestRunning s1" "rafQueue s1 = [(q1, Animate)]"
    "frameCount s1 = 12" "totalFrames s1 = 12" "lastFPSUpdate s1 = 0" "testStartTime s1 = 0"
    "testResults s1 = initial_testResults" "fps_display s1 = []" "fallback_fps s1 = []"
    by (auto simp add: ts1_def demo_started_fields)
  have "1040 - testStartTime s1 < 30000" "1000 \<le> 1040 - lastFPSUpdate s1"
    by (simp_all add: s1)
  from sampling_frame_3d [OF s1(2,3) this]
  obtain s2 q2 where s2: "run_callback (demo_env 1040 1040) s1 = Inr s2"
    "isTestRunning s2" "rafQueue s2 = [(q2, Animate)]"
    "frameCount s2 = 0" "totalFrames s2 = 13" "lastFPSUpdate s2 = 1040" "testStartTime s2 = 0"
    "minFPS (testResults s2) = Fin 13" "maxFPS (testResults s2) = Fin 13"
    "fps_display s2 = [Fin 13]" "fallback_fps s2 = []"
    by (auto simp add: s1 tie_examples initial_testResults_def Math_min_def Math_max_def)
  have "\<forall>t\<in>set ts2. t - testStartTime s2 < 30000 \<and> t - lastFPSUpdate s2 < 1000"
    by (simp add: ts2_def s2)
  from quiet_frames_3d [OF s2(2,3) this]
  obtain s3 q3 where s3: "run_callbacks (map (\<lambda>t. demo_env t t) ts2) s2 = Inr s3"
    "isTestRunning s3" "rafQueue s3 = [(q3, Animate)]"
    "frameCount s3 = 14" "totalFrames s3 = 27" "lastFPSUpdate s3 = 1040" "testStartTime s3 = 0"
    "minFPS (testResults s3) = Fin 13" "maxFPS (testResults s3) = Fin 13"
    "fps_display s3 = [Fin 13]" "fallback_fps s3 = []"
    by (auto simp add: ts2_def s2)
  have "2240 - testStartTime s3 < 30000" "1000 \<le> 2240 - lastFPSUpdate s3"
    by (simp_all add: s3)
  from sampling_frame_3d [OF s3(2,3) this]
  obtain s4 where s4: "run_callback (demo_env 2240 2240) s3 = Inr s4"
    "minFPS (testResults s4) = Fin 13" "maxFPS (testResults s4) = Fin 13"
    "avgFPS (testResults s4) = Fin 12"
    "fps_display s4 = [Fin 13, Fin 13]" "fallback_fps s4 = []"
    by (auto simp add: s3 tie_examples Math_min_def Math_max_def)
  have "run_callbacks
          (map (\<lambda>t. demo_env t t) (ts1 @ [1040] @ ts2 @ [2240])) demo_started = Inr s4"
    by (simp add: run_callbacks_append s1(1) s2(1) s3(1) s4(1) del: map_append)
      (simp add: run_callbacks_append s1(1) s2(1) s3(1) s4(1))
  then show ?thesis using h1 s4
    by (simp add: ts1_def ts2_def samples_emitted_def)
qed

section \<open>Runs that reach the inputs of the scoring theorems\<close>

lemma stopGPUTest_running:
  assumes "isTestRunning s" and "animationId s = Some (Suc n)"
    and "localStorage s ''gpuTestResults'' = None"
  shows "map_sum id testResults (stopGPUTest d t s) = Inr (testResults (snd (calculateScore s)))"
  using assms
  by (simp add: stopGPUTest_def calculateScore_def saveTestResults_def load_savedResults_def
      JSON_parse_def cancelAnimationFrame_def Let_def)

lemma initial_results_scored:
  "spec_score (Fin 35) (avgFPS initial_testResults)
     (minFPS initial_testResults) (maxFPS initial_testResults) (maxTemp initial_testResults)
   = Fin 100"
  "spec_stability (avgFPS initial_testResults) (minFPS initial_testResults)
     (maxFPS initial_testResults) = Fin 100"
  by code_simp+

text \<open>
  A 3D run stopped before its first sample (started at time 0, first frame at time 0,
  Stop pressed) is scored 100 with stability 100.
\<close>

lemma run_without_sample_scored_100:
  "startGPUTest Medium 0 0 (demo_env 0 0) demo_page = Inr demo_started
   \<and> samples_emitted demo_started = 0
   \<and> map_sum id (score \<circ> testResults) (stopGPUTest ''3/11/2026'' ''10:00:01'' demo_started)
       = Inr (Fin 100)
   \<and> map_sum id (stability \<circ> testResults) (stopGPUTest ''3/11/2026'' ''10:00:01'' demo_started)
       = Inr (Fin 100)"
proof -
  have h0: "\<not> isTestRunning demo_page"
    by (simp add: demo_page_def initial_state_def)
  have h1: "startGPUTest Medium 0 0 (demo_env 0 0) demo_page = Inr demo_started"
    using h0 by (simp add: startGPUTest_def demo_started_def animate_running demo_env_def)
  have h2: "samples_emitted demo_started = 0"
    by (simp add: samples_emitted_def demo_started_fields)
  have "map_sum id testResults (stopGPUTest ''3/11/2026'' ''10:00:01'' demo_started)
      = Inr (testResults (snd (calculateScore demo_started)))"
    by (rule stopGPUTest_running [of _ 0]) (simp_all add: demo_started_fields)
  moreover have "score (testResults (snd (calculateScore demo_started))) = Fin 100"
    "stability (testResults (snd (calculateScore demo_started))) = Fin 100"
    by (simp_all add: calculateScore_eq_spec demo_started_fields initial_results_scored)
  ultimately show ?thesis using h1 h2
    by (cases "stopGPUTest ''3/11/2026'' ''10:00:01'' demo_started") auto
qed

text \<open>
  A 3D run whose second frame comes 5000 ms after the first (the tab was hidden) has
  one sample, of 0 FPS, and avgFPS 0; stopped then, its stability is \<^verbatim>\<open>NaN\<close>.
\<close>

lemma run_with_zero_fps_sample_not_a_number:
  "map_sum id samples_emitted
     (case_sum Inl (stopGPUTest ''3/11/2026'' ''10:00:06'')
        (run_callbacks [demo_env 5000 5000] demo_started)) = Inr 1
   \<and> map_sum id (avgFPS \<circ> testResults)
     (case_sum Inl (stopGPUTest ''3/11/2026'' ''10:00:06'')
        (run_callbacks [demo_env 5000 5000] demo_started)) = Inr (Fin 0)
   \<and> map_sum id (stability \<circ> testResults)
     (case_sum Inl (stopGPUTest ''3/11/2026'' ''10:00:06'')
        (run_callbacks [demo_env 5000 5000] demo_started)) = Inr NaN"
proof -
  define s1' where "s1' = schedule_animate (demo_started\<lparr>rafQueue := []\<rparr>)"
  define s2 where "s2 = update_fps (demo_env 5000 5000) s1'"
  have r: "isTestRunning (demo_started\<lparr>rafQueue := []\<rparr>)"
    by (simp add: demo_started_fields)
  have t: "clock_elapsed (demo_env 5000 5000) - testStartTime (demo_started\<lparr>rafQueue := []\<rparr>) < 30000"
    by (simp add: demo_started_fields demo_env_def)
  have h2: "run_callbacks [demo_env 5000 5000] demo_started = Inr s2"
    using animate_running [OF r t]
    by (simp add: run_callback_def s2_def s1'_def demo_started_fields)
  have f1: "frameCount s1' = 1" "totalFrames s1' = 1" "lastFPSUpdate s1' = 0" "testStartTime s1' = 0"
    "testResults s1' = initial_testResults" "fps_display s1' = []" "fallback_fps s1' = []"
    "isTestRunning s1'" "animationId s1' = Some 2" "localStorage s1' = Map.empty"
    by (simp_all add: s1'_def schedule_animate_eq demo_started_fields)
  have w: "1000 \<le> clock_now (demo_env 5000 5000) - lastFPSUpdate s1'"
    by (simp add: f1 demo_env_def)
  have c: "clock_now (demo_env 5000 5000) = 5000" by (simp add: demo_env_def)
  have a: "animationId s2 = Some 2"
    by (simp add: s2_def update_fps_def Let_def f1)
  have f: "isTestRunning s2" "localStorage s2 ''gpuTestResults'' = None"
    "minFPS (testResults s2) = Fin 0" "maxFPS (testResults s2) = Fin 0"
    "avgFPS (testResults s2) = Fin 0" "fps_display s2 = [Fin 0]" "fallback_fps s2 = []"
    using update_fps_results [OF w]
    by (simp_all add: s2_def update_fps_frame update_fps_window f1 c spec_fps_examples
        initial_testResults_def Math_min_def Math_max_def)
  have st: "map_sum id testResults (stopGPUTest ''3/11/2026'' ''10:00:06'' s2)
      = Inr (testResults (snd (calculateScore s2)))"
    by (rule stopGPUTest_running [of _ 1]) (simp_all add: f a)
  have sm: "map_sum id samples_emitted (stopGPUTest ''3/11/2026'' ''10:00:06'' s2) = Inr 1"
  proof (cases "stopGPUTest ''3/11/2026'' ''10:00:06'' s2")
    case (Inl e)
    with st show ?thesis by simp
  next
    case (Inr s3)
    from same_stats_stopGPUTest [OF Inr] have "samples_emitted s3 = samples_emitted s2"
      by (rule same_stats_samples)
    then show ?thesis using Inr by (simp add: samples_emitted_def f)
  qed
  have c: "avgFPS (testResults (snd (calculateScore s2))) = Fin 0"
    "stability (testResults (snd (calculateScore s2))) = NaN"
    by (simp_all add: calculateScore_eq_spec f spec_examples)
  have "case_sum Inl (stopGPUTest ''3/11/2026'' ''10:00:06'')
          (run_callbacks [demo_env 5000 5000] demo_started)
        = stopGPUTest ''3/11/2026'' ''10:00:06'' s2"
    by (simp only: h2 sum.case)
  then show ?thesis using st sm c
    by (cases "stopGPUTest ''3/11/2026'' ''10:00:06'' s2") auto
qed

end
